theory Spec2Isabelle
  imports Main "HOL-Library.Finite_Map" "HOL-Library.Sublist"
    "HOL-Library.Char_ord" "HOL-Library.List_Lexorder"
begin

section \<open>Values and exceptions\<close>

text \<open>
  The task dictionaries of \<^verbatim>\<open>autonomous-coding\<close> come out of \<^verbatim>\<open>json.loads\<close> and are never
  type-checked, so a field of a task holds whatever JSON value the document had. The model
  keeps null, strings, arrays and objects; numbers and booleans are left out. An object is a
  finite map, so that equality of objects ignores the order of the keys, as Python's
  \<^verbatim>\<open>dict.__eq__\<close> and \<^verbatim>\<open>json.dumps(..., sort_keys=True)\<close> do. A Python \<^verbatim>\<open>str\<close> is a
  \<^typ>\<open>string\<close> whose characters are the code points below 256.
\<close>

datatype json = JNull | JStr string | JArr "json list" | JObj "(string, json) fmap"

datatype exn = TypeError | AttributeError | KeyError | ValueError | TimeoutError | OtherError

text \<open>Truthiness (\<^verbatim>\<open>if x:\<close>), hashability (use as a dictionary key) and \<^verbatim>\<open>for x in v\<close>.\<close>

fun truthy :: "json \<Rightarrow> bool" where
  "truthy JNull = False"
| "truthy (JStr s) = (s \<noteq> [])"
| "truthy (JArr xs) = (xs \<noteq> [])"
| "truthy (JObj m) = (m \<noteq> fmempty)"

fun hashable :: "json \<Rightarrow> bool" where
  "hashable (JArr xs) = False"
| "hashable (JObj m) = False"
| "hashable v = True"

text \<open>
  Iterating an array yields its elements, a string its characters, an object its keys.
  Python yields the keys in insertion order, which a finite map does not record; they are
  given sorted here. Every loop of the program fails on the first string it is handed, so
  the order is not observable.
\<close>

fun py_iter :: "json \<Rightarrow> exn + json list" where
  "py_iter (JArr xs) = Inr xs"
| "py_iter (JStr s) = Inr (map (\<lambda>c. JStr [c]) s)"
| "py_iter (JObj m) = Inr (map JStr (sorted_list_of_fset (fmdom m)))"
| "py_iter JNull = Inl TypeError"

text \<open>\<^verbatim>\<open>d.get(k)\<close>: the value, or \<^verbatim>\<open>None\<close>.\<close>

definition dict_get :: "(string, json) fmap \<Rightarrow> string \<Rightarrow> json" where
  "dict_get d k = (case fmlookup d k of None \<Rightarrow> JNull | Some v \<Rightarrow> v)"

section \<open>task.py: the task\<close>

record SubTask =
  task_id :: json
  title :: json
  description :: json
  test_command :: json
  status :: json
  updated_time :: json

text \<open>
  \<^verbatim>\<open>SubTask(**kw)\<close>: the four positional parameters are required, \<^verbatim>\<open>status\<close> defaults to
  \<^verbatim>\<open>"pending"\<close> and \<^verbatim>\<open>updated_time\<close> to \<^verbatim>\<open>None\<close>; a missing required key or a key
  that is no parameter raises \<^verbatim>\<open>TypeError\<close>. The constructor checks nothing else.
\<close>

definition SubTask_params :: "string fset" where
  "SubTask_params =
     {|''id'', ''title'', ''description'', ''test_command'', ''status'', ''updated_time''|}"

definition SubTask_init :: "(string, json) fmap \<Rightarrow> exn + SubTask" where
  "SubTask_init kw =
     (if \<not> fmdom kw |\<subseteq>| SubTask_params then Inl TypeError
      else case (fmlookup kw ''id'', fmlookup kw ''title'',
                 fmlookup kw ''description'', fmlookup kw ''test_command'') of
        (Some i, Some t, Some d, Some c) \<Rightarrow>
           Inr \<lparr>task_id = i, title = t, description = d, test_command = c,
                status = (case fmlookup kw ''status'' of None \<Rightarrow> JStr ''pending'' | Some s \<Rightarrow> s),
                updated_time = (case fmlookup kw ''updated_time'' of None \<Rightarrow> JNull | Some u \<Rightarrow> u)\<rparr>
      | _ \<Rightarrow> Inl TypeError)"

definition model_dump :: "bool \<Rightarrow> SubTask \<Rightarrow> (string, json) fmap" where
  "model_dump exclude_none t =
     (let result = fmap_of_list
            [(''id'', task_id t), (''title'', title t), (''description'', description t),
             (''test_command'', test_command t), (''status'', status t)]
      in if \<not> exclude_none \<or> updated_time t \<noteq> JNull
         then fmupd ''updated_time'' (updated_time t) result else result)"

section \<open>task\_manager.py: the task store\<close>

text \<open>
  The manager holds the task list, the requirement and the file \<^verbatim>\<open>tasks.json\<close>. The file is
  modelled by the document it holds (\<open>None\<close>: the file does not exist); the text that
  \<^verbatim>\<open>json.dump\<close> writes and \<^verbatim>\<open>json.load\<close> reads back is not modelled.
\<close>

record TaskManager =
  tasks :: "SubTask list"
  requirement :: json
  tasks_file :: "json option"

definition save_tasks :: "TaskManager \<Rightarrow> TaskManager" where
  "save_tasks tm =
     (let tasks_data =
            map (\<lambda>task. let task_dict = model_dump False task
                        in JObj (if ''updated_time'' |\<notin>| fmdom task_dict
                                 then fmupd ''updated_time'' JNull task_dict else task_dict))
                (tasks tm)
      in tm\<lparr>tasks_file :=
              Some (JObj (fmap_of_list [(''requirement'', requirement tm),
                                        (''tasks'', JArr tasks_data)]))\<rparr>)"

text \<open>
  A loop \<^verbatim>\<open>for x in xs: out.append(body(x))\<close>: the first element whose body raises ends it.
\<close>

fun for_append :: "('a \<Rightarrow> exn + 'b) \<Rightarrow> 'a list \<Rightarrow> exn + 'b list" where
  "for_append body [] = Inr []"
| "for_append body (x # xs) =
     (case body x of
        Inl e \<Rightarrow> Inl e
      | Inr y \<Rightarrow> (case for_append body xs of Inl e \<Rightarrow> Inl e | Inr ys \<Rightarrow> Inr (y # ys)))"

text \<open>
  The body of the loop of \<^verbatim>\<open>load_tasks\<close>. \<^verbatim>\<open>t.copy()\<close> exists for a dictionary and for a
  list; a list then fails at the item assignment or at \<^verbatim>\<open>**\<close>.
\<close>

definition load_body :: "json \<Rightarrow> exn + SubTask" where
  "load_body t =
     (case t of
        JObj d \<Rightarrow>
          SubTask_init (if ''updated_time'' |\<notin>| fmdom d then fmupd ''updated_time'' JNull d else d)
      | JArr xs \<Rightarrow> Inl TypeError
      | _ \<Rightarrow> Inl AttributeError)"

definition load_tasks :: "TaskManager \<Rightarrow> exn + TaskManager" where
  "load_tasks tm =
     (case tasks_file tm of
        None \<Rightarrow> Inr tm
      | Some data \<Rightarrow>
          (case data of
             JObj d \<Rightarrow>
               (case py_iter (case fmlookup d ''tasks'' of None \<Rightarrow> JArr [] | Some v \<Rightarrow> v) of
                  Inl e \<Rightarrow> Inl e
                | Inr tasks_data \<Rightarrow>
                    (case for_append load_body tasks_data of
                       Inl e \<Rightarrow> Inl e
                     | Inr ts \<Rightarrow>
                         Inr (tm\<lparr>tasks := ts,
                                 requirement := (case fmlookup d ''requirement'' of
                                                   None \<Rightarrow> JStr [] | Some r \<Rightarrow> r)\<rparr>)))
           | _ \<Rightarrow>
               (case py_iter data of
                  Inl e \<Rightarrow> Inl e
                | Inr tasks_data \<Rightarrow>
                    (case for_append load_body tasks_data of
                       Inl e \<Rightarrow> Inl e
                     | Inr ts \<Rightarrow> Inr (tm\<lparr>tasks := ts\<rparr>)))))"

text \<open>\<^verbatim>\<open>TaskManager(project_dir)\<close>: an empty manager that loads the file it finds.\<close>

definition TaskManager_init :: "json option \<Rightarrow> exn + TaskManager" where
  "TaskManager_init file = load_tasks \<lparr>tasks = [], requirement = JStr [], tasks_file = file\<rparr>"

text \<open>
  \<^verbatim>\<open>{t.id: t for t in self.tasks}\<close>: a later task with the same id replaces an earlier one;
  an id that is a list or a dictionary cannot be a key.
\<close>

definition existing_tasks_map :: "SubTask list \<Rightarrow> json \<Rightarrow> SubTask option" where
  "existing_tasks_map ts = map_of (rev (map (\<lambda>t. (task_id t, t)) ts))"

definition set_tasks_body :: "(json \<Rightarrow> SubTask option) \<Rightarrow> json \<Rightarrow> exn + SubTask" where
  "set_tasks_body m x =
     (case x of
        JObj new_task_dict \<Rightarrow>
          (let tid = dict_get new_task_dict ''id''
           in if \<not> hashable tid then Inl TypeError
              else SubTask_init
                (case m tid of
                   Some existing_task \<Rightarrow>
                     (if ''updated_time'' |\<notin>| fmdom new_task_dict
                      then fmupd ''updated_time'' (updated_time existing_task) new_task_dict
                      else new_task_dict)
                 | None \<Rightarrow>
                     (if ''updated_time'' |\<notin>| fmdom new_task_dict
                      then fmupd ''updated_time'' JNull new_task_dict
                      else new_task_dict)))
      | _ \<Rightarrow> Inl AttributeError)"

text \<open>
  \<^verbatim>\<open>set_tasks(tasks, requirement=None)\<close>, the store's \<open>replace\<close>. Nothing is assigned before
  the loop has ended, so a call that raises leaves the manager as it was.
\<close>

definition set_tasks :: "TaskManager \<Rightarrow> json \<Rightarrow> string option \<Rightarrow> exn + TaskManager" where
  "set_tasks tm new_list req =
     (if \<not> list_all (\<lambda>t. hashable (task_id t)) (tasks tm) then Inl TypeError
      else case py_iter new_list of
             Inl e \<Rightarrow> Inl e
           | Inr ds \<Rightarrow>
               (case for_append (set_tasks_body (existing_tasks_map (tasks tm))) ds of
                  Inl e \<Rightarrow> Inl e
                | Inr new_tasks \<Rightarrow>
                    Inr (save_tasks
                          (tm\<lparr>tasks := new_tasks,
                              requirement := (case req of
                                                None \<Rightarrow> requirement tm
                                              | Some r \<Rightarrow> if r \<noteq> [] then JStr r
                                                          else requirement tm)\<rparr>))))"

definition get_next_task :: "TaskManager \<Rightarrow> SubTask option" where
  "get_next_task tm =
     find (\<lambda>task. status task \<in> set [JStr ''pending'', JStr ''failed'', JStr ''in_progress''])
          (tasks tm)"

text \<open>
  \<^verbatim>\<open>update_task_status\<close> changes the first task with the id and stops; \<open>now\<close> is what
  \<^verbatim>\<open>datetime.utcnow().isoformat()\<close> returns at the call.
\<close>

fun update_loop :: "string \<Rightarrow> json \<Rightarrow> string \<Rightarrow> SubTask list \<Rightarrow> SubTask list" where
  "update_loop now tid st [] = []"
| "update_loop now tid st (task # ts) =
     (if task_id task = tid
      then task\<lparr>status := JStr st, updated_time := JStr now\<rparr> # ts
      else task # update_loop now tid st ts)"

definition update_task_status :: "string \<Rightarrow> TaskManager \<Rightarrow> json \<Rightarrow> string \<Rightarrow> TaskManager" where
  "update_task_status now tm tid st = save_tasks (tm\<lparr>tasks := update_loop now tid st (tasks tm)\<rparr>)"

definition add_task :: "string \<Rightarrow> TaskManager \<Rightarrow> SubTask \<Rightarrow> TaskManager" where
  "add_task now tm task =
     save_tasks (tm\<lparr>tasks := tasks tm @
                   [if \<not> truthy (updated_time task) then task\<lparr>updated_time := JStr now\<rparr>
                    else task]\<rparr>)"

section \<open>refiner.py: the refiner\<close>

text \<open>
  \<^verbatim>\<open>{task.get("id"): task for task in tasks}\<close>: a later entry with the same id replaces an
  earlier one; an entry that is no dictionary has no \<^verbatim>\<open>get\<close>, and a list or a dictionary
  cannot be a key.
\<close>

definition refine_key :: "json \<Rightarrow> exn + (json \<times> (string, json) fmap)" where
  "refine_key task =
     (case task of
        JObj d \<Rightarrow> if hashable (dict_get d ''id'') then Inr (dict_get d ''id'', d)
                  else Inl TypeError
      | _ \<Rightarrow> Inl AttributeError)"

definition refine_existing_tasks_map ::
    "json list \<Rightarrow> exn + (json \<Rightarrow> (string, json) fmap option)" where
  "refine_existing_tasks_map old_tasks =
     (case for_append refine_key old_tasks of
        Inl e \<Rightarrow> Inl e
      | Inr kvs \<Rightarrow> Inr (map_of (rev kvs)))"

text \<open>
  The body of the loop over \<^verbatim>\<open>new_tasks\<close> changes the entry in place. It returns the entry
  as the body leaves it and the exception it raised, if any: the time stamp is already
  copied when the lookup of \<^verbatim>\<open>existing_task["status"]\<close> fails.
\<close>

definition refine_body ::
    "(json \<Rightarrow> (string, json) fmap option) \<Rightarrow> json \<Rightarrow> json \<times> exn option" where
  "refine_body m new_task =
     (case new_task of
        JObj d \<Rightarrow>
          (let tid = dict_get d ''id''
           in if \<not> hashable tid then (new_task, Some TypeError)
              else case m tid of
                None \<Rightarrow> (new_task, None)
              | Some existing_task \<Rightarrow>
                  (let d1 = (if ''updated_time'' |\<in>| fmdom existing_task \<and>
                                ''updated_time'' |\<notin>| fmdom d
                             then fmupd ''updated_time''
                                    (dict_get existing_task ''updated_time'') d
                             else d)
                   in case fmlookup existing_task ''status'' of
                        None \<Rightarrow> (JObj d1, Some KeyError)
                      | Some s \<Rightarrow>
                          (JObj (if s = JStr ''completed''
                                 then fmupd ''status'' (JStr ''completed'') d1 else d1),
                           None)))
      | _ \<Rightarrow> (new_task, Some AttributeError))"

text \<open>
  A loop that changes the elements of a list in place: the list as the loop leaves it (the
  elements after the one that raised are untouched) and the exception, if any.
\<close>

fun for_inplace :: "('a \<Rightarrow> 'a \<times> exn option) \<Rightarrow> 'a list \<Rightarrow> 'a list \<times> exn option" where
  "for_inplace body [] = ([], None)"
| "for_inplace body (x # xs) =
     (case body x of
        (x', Some e) \<Rightarrow> (x' # xs, Some e)
      | (x', None) \<Rightarrow> (case for_inplace body xs of (xs', r) \<Rightarrow> (x' # xs', r)))"

text \<open>
  The prompt of \<^verbatim>\<open>refine\<close> is built from its seven arguments and from nothing else, so the
  oracle is a function of them: \<^verbatim>\<open>query_json\<close> applied to (requirement, tasks, last coder
  response, last result, file context, exit code, last task id) is what
  \<^verbatim>\<open>self.coding_tool.query_json(refine_context, system_instruction=refiner_prompt)\<close>
  returns or raises. An answer that is not valid JSON raises inside \<^verbatim>\<open>query_json\<close>.
\<close>

type_synonym refine_prompt = "json \<times> json list \<times> string \<times> string \<times> string \<times> int \<times> json"

text \<open>
  \<^verbatim>\<open>refine\<close> returns a pair: the value it returns, and the caller's list \<^verbatim>\<open>tasks\<close> as the call
  leaves it. The two differ from the input only when the answer has no key \<^verbatim>\<open>tasks\<close>: then
  \<^verbatim>\<open>response.get("tasks", tasks)\<close> is the caller's list itself and the loop changes it in
  place. The table holds the last entry for each id, and the loop leaves that entry as it
  is, so the table does not change while the loop runs.
\<close>

definition refine ::
    "(refine_prompt \<Rightarrow> exn + json) \<Rightarrow> json \<Rightarrow> json list \<Rightarrow> string \<Rightarrow> string \<Rightarrow> string \<Rightarrow> int
       \<Rightarrow> json \<Rightarrow> json \<times> json list" where
  "refine query_json req old_tasks last_coder_response last_result file_context exit_code
       last_task_id =
     (case query_json (req, old_tasks, last_coder_response, last_result, file_context,
                       exit_code, last_task_id) of
        Inl e \<Rightarrow> (JArr old_tasks, old_tasks)
      | Inr (JObj response) \<Rightarrow>
          (case fmlookup response ''tasks'' of
             None \<Rightarrow>
               (case refine_existing_tasks_map old_tasks of
                  Inl e \<Rightarrow> (JArr old_tasks, old_tasks)
                | Inr m \<Rightarrow>
                    (case for_inplace (refine_body m) old_tasks of
                       (tasks', r) \<Rightarrow> (JArr tasks', tasks')))
           | Some new_tasks \<Rightarrow>
               (case refine_existing_tasks_map old_tasks of
                  Inl e \<Rightarrow> (JArr old_tasks, old_tasks)
                | Inr m \<Rightarrow>
                    (case py_iter new_tasks of
                       Inl e \<Rightarrow> (JArr old_tasks, old_tasks)
                     | Inr xs \<Rightarrow>
                         (case for_inplace (refine_body m) xs of
                            (xs', None) \<Rightarrow>
                              ((case new_tasks of JArr ys \<Rightarrow> JArr xs' | v \<Rightarrow> v), old_tasks)
                          | (xs', Some e) \<Rightarrow> (JArr old_tasks, old_tasks)))))
      | Inr other \<Rightarrow> (JArr old_tasks, old_tasks))"

section \<open>agent.py: file blocks in the answer of the oracle\<close>

subsection \<open>The regular expression\<close>

text \<open>
  \<^verbatim>\<open>re.findall(r"FILE:\s*(.*?)\n```(?:\w+)?\n(.*?)\n```", response, re.DOTALL)\<close>. The
  pattern is a sequence of literals, of a greedy \<^verbatim>\<open>\s*\<close>, of lazy captured groups
  \<^verbatim>\<open>(.*?)\<close> and of an optional greedy \<^verbatim>\<open>\w+\<close>; the matcher below tries the alternatives in
  the order in which Python's backtracking matcher does. The character classes are those of
  Python for the code points below 256.
\<close>

datatype cclass = AnyChar | Space | Word

definition is_space :: "char \<Rightarrow> bool" where
  "is_space c = (of_char c \<in> set [9, 10, 11, 12, 13, 28, 29, 30, 31, 32, 133, 160 :: nat])"

definition is_word :: "char \<Rightarrow> bool" where
  "is_word c =
     (let n = of_char c :: nat
      in (48 \<le> n \<and> n \<le> 57) \<or> (65 \<le> n \<and> n \<le> 90) \<or> n = 95 \<or> (97 \<le> n \<and> n \<le> 122) \<or>
         n \<in> set [170, 178, 179, 181, 185, 186, 188, 189, 190] \<or>
         (192 \<le> n \<and> n \<le> 214) \<or> (216 \<le> n \<and> n \<le> 246) \<or> 248 \<le> n)"

fun in_class :: "cclass \<Rightarrow> char \<Rightarrow> bool" where
  "in_class AnyChar c = True"
| "in_class Space c = is_space c"
| "in_class Word c = is_word c"

datatype rx = Lit string | GreedyStar cclass | LazyGroup cclass | OptGreedyPlus cclass

fun first_some :: "'a option list \<Rightarrow> 'a option" where
  "first_some [] = None"
| "first_some (None # xs) = first_some xs"
| "first_some (Some x # xs) = Some x"

text \<open>
  \<open>rx_match rs s\<close> matches the sequence \<open>rs\<close> at the start of \<open>s\<close>: the captured groups and
  what follows the match. A greedy item tries the longest run first, a lazy one the
  shortest; \<^verbatim>\<open>(?:\w+)?\<close> tries every non-empty run, longest first, and then nothing.
\<close>

fun rx_match :: "rx list \<Rightarrow> string \<Rightarrow> (string list \<times> string) option" where
  "rx_match [] s = Some ([], s)"
| "rx_match (Lit l # rs) s =
     (if prefix l s then rx_match rs (drop (length l) s) else None)"
| "rx_match (GreedyStar c # rs) s =
     first_some (map (\<lambda>k. rx_match rs (drop k s))
                     (rev [0 ..< Suc (length (takeWhile (in_class c) s))]))"
| "rx_match (OptGreedyPlus c # rs) s =
     first_some (map (\<lambda>k. rx_match rs (drop k s))
                     (rev [1 ..< Suc (length (takeWhile (in_class c) s))] @ [0]))"
| "rx_match (LazyGroup c # rs) s =
     first_some (map (\<lambda>k. map_option (\<lambda>(gs, rest). (take k s # gs, rest))
                                       (rx_match rs (drop k s)))
                     [0 ..< Suc (length (takeWhile (in_class c) s))])"

text \<open>
  \<^verbatim>\<open>re.findall\<close>: the leftmost match, then the search goes on after it; where nothing
  matches, one character further. A match of this pattern is never empty.
\<close>

function findall :: "rx list \<Rightarrow> string \<Rightarrow> string list list" where
  "findall rs s =
     (case rx_match rs s of
        Some (gs, rest) \<Rightarrow>
          (if length rest < length s then gs # findall rs rest
           else if s = [] then [gs] else gs # findall rs (tl s))
      | None \<Rightarrow> (if s = [] then [] else findall rs (tl s)))"
  by pat_completeness auto
termination
  by (relation "measure (\<lambda>(rs, s). length s)") auto

declare findall.simps [simp del]

definition file_pattern :: "rx list" where
  "file_pattern =
     [Lit ''FILE:'', GreedyStar Space, LazyGroup AnyChar, Lit [CHR 0x0A, CHR ''`'', CHR ''`'', CHR ''`''],
      OptGreedyPlus Word, Lit [CHR 0x0A], LazyGroup AnyChar,
      Lit [CHR 0x0A, CHR ''`'', CHR ''`'', CHR ''`'']]"

text \<open>\<^verbatim>\<open>str.strip()\<close> removes the white space at both ends.\<close>

definition strip :: "string \<Rightarrow> string" where
  "strip s = rev (dropWhile is_space (rev (dropWhile is_space s)))"

subsection \<open>Paths\<close>

text \<open>
  A \<^verbatim>\<open>pathlib\<close> path on a POSIX system: the root (\<^verbatim>\<open>""\<close>, \<^verbatim>\<open>"/"\<close> or, for exactly two leading
  slashes, \<^verbatim>\<open>"//"\<close>) and the components. Parsing drops empty components and \<^verbatim>\<open>"."\<close> and keeps
  \<^verbatim>\<open>".."\<close>.
\<close>

record ppath =
  root :: string
  parts :: "string list"

fun split_sep :: "string \<Rightarrow> string list" where
  "split_sep [] = [[]]"
| "split_sep (c # cs) =
     (if c = CHR ''/'' then [] # split_sep cs
      else (case split_sep cs of p # ps \<Rightarrow> (c # p) # ps | [] \<Rightarrow> [[c]]))"

definition Path :: "string \<Rightarrow> ppath" where
  "Path s =
     (let slashes = length (takeWhile (\<lambda>c. c = CHR ''/'') s)
      in \<lparr>root = (if slashes = 0 then [] else if slashes = 2 then ''//'' else ''/''),
          parts = filter (\<lambda>x. x \<noteq> [] \<and> x \<noteq> ''.'') (split_sep s)\<rparr>)"

fun join_sep :: "string list \<Rightarrow> string" where
  "join_sep [] = []"
| "join_sep [p] = p"
| "join_sep (p # ps) = p @ ''/'' @ join_sep ps"

definition path_str :: "ppath \<Rightarrow> string" where
  "path_str p = (if root p = [] \<and> parts p = [] then ''.'' else root p @ join_sep (parts p))"

definition is_absolute :: "ppath \<Rightarrow> bool" where
  "is_absolute p = (root p \<noteq> [])"

definition path_name :: "ppath \<Rightarrow> string" where
  "path_name p = (if parts p = [] then [] else last (parts p))"

definition relative_to :: "ppath \<Rightarrow> ppath \<Rightarrow> exn + ppath" where
  "relative_to p other =
     (if root p = root other \<and> prefix (parts other) (parts p)
      then Inr \<lparr>root = [], parts = drop (length (parts other)) (parts p)\<rparr>
      else Inl ValueError)"

text \<open>\<^verbatim>\<open>p / s\<close>: an absolute right operand replaces the left one.\<close>

definition path_join :: "ppath \<Rightarrow> string \<Rightarrow> ppath" where
  "path_join p s =
     (let q = Path s
      in if is_absolute q then q else \<lparr>root = root p, parts = parts p @ parts q\<rparr>)"

subsection \<open>parse\_files\_from\_response\<close>

text \<open>
  The dictionary \<^verbatim>\<open>files\<close> is an association list: assigning to a key that is present
  replaces its value and keeps its place, as a Python dictionary does.
\<close>

definition normalize_path :: "ppath \<Rightarrow> string \<Rightarrow> string" where
  "normalize_path project_dir path =
     (let path_obj = Path (strip path)
      in path_str
           (if is_absolute path_obj
            then (case relative_to path_obj project_dir of
                    Inr rel \<Rightarrow> rel
                  | Inl e \<Rightarrow> Path (path_name path_obj))
            else path_obj))"

definition store_file :: "ppath \<Rightarrow> string list \<Rightarrow> (string \<times> string) list \<Rightarrow> (string \<times> string) list" where
  "store_file project_dir groups files =
     (case groups of
        [path, content] \<Rightarrow> AList.update (normalize_path project_dir path) content files
      | _ \<Rightarrow> files)"

definition parse_files_from_response :: "ppath \<Rightarrow> string \<Rightarrow> (string \<times> string) list" where
  "parse_files_from_response project_dir response =
     fold (store_file project_dir) (findall file_pattern response) []"

section \<open>agent.py: one iteration of the control loop\<close>

text \<open>
  The collaborators of the loop are outside the program: the oracle, the shell, git, the
  clock and the file system. An \<open>env\<close> says what each of them answers during one iteration;
  a value \<open>Inl e\<close> (or \<open>Some e\<close>) is the exception a call raises. The prompts of the two
  queries of the implementation step are not modelled; the refiner's oracle is a function
  of the arguments of \<^verbatim>\<open>refine\<close>. \<open>py_str\<close> is Python's \<^verbatim>\<open>str()\<close> on a field of a task.
\<close>

record env =
  utcnow :: "nat \<Rightarrow> string"
  py_str :: "json \<Rightarrow> string"
  get_file_context :: string
  query_coder :: "exn + string option"
  query_breakdown :: "exn + json"
  write_file :: "string \<Rightarrow> string \<Rightarrow> exn option"
  run_command :: "json \<Rightarrow> exn + (int \<times> string)"
  get_diff :: "exn + string"
  get_untracked_files :: "exn + string list"
  query_commit_msg :: "exn + string option"
  commit :: "string option \<Rightarrow> exn option"
  query_refine :: "refine_prompt \<Rightarrow> exn + json"

text \<open>What the iteration does to the outside, in order.\<close>

datatype event =
    StatusUpdated json string
  | TaskAdded SubTask
  | TasksReplaced json
  | Queried "int option"
  | QueriedJson "int option"
  | FileWritten string string
  | CommandRun json
  | Committed "string option"

record world =
  task_manager :: TaskManager
  clock :: nat
  trace :: "event list"
  task_count :: nat

text \<open>How the \<^verbatim>\<open>try\<close> block of an iteration ends.\<close>

datatype outcome = Raised exn | ContinueStmt | BreakStmt | FellThrough

datatype control = NextIteration | LoopExit

definition emit :: "event \<Rightarrow> world \<Rightarrow> world" where
  "emit ev w = w\<lparr>trace := trace w @ [ev]\<rparr>"

definition do_update_task_status :: "env \<Rightarrow> json \<Rightarrow> string \<Rightarrow> world \<Rightarrow> world" where
  "do_update_task_status en tid st w =
     emit (StatusUpdated tid st)
       (w\<lparr>task_manager := update_task_status (utcnow en (clock w)) (task_manager w) tid st,
          clock := Suc (clock w)\<rparr>)"

definition do_add_task :: "env \<Rightarrow> SubTask \<Rightarrow> world \<Rightarrow> world" where
  "do_add_task en t w =
     emit (TaskAdded t)
       (w\<lparr>task_manager := add_task (utcnow en (clock w)) (task_manager w) t,
          clock := Suc (clock w)\<rparr>)"

subsection \<open>The time-out branch\<close>

text \<open>
  \<^verbatim>\<open>for new_task in new_tasks: self.task_manager.add_task(SubTask(**new_task))\<close>. The first
  entry that \<^verbatim>\<open>SubTask\<close> rejects ends the loop; the tasks added before it stay. The
  exception is caught by the handler around the decomposition, after which the iteration
  ends as it does without one, so it is not returned.
\<close>

fun add_children :: "env \<Rightarrow> json list \<Rightarrow> world \<Rightarrow> world" where
  "add_children en [] w = w"
| "add_children en (new_task # rest) w =
     (case new_task of
        JObj d \<Rightarrow>
          (case SubTask_init d of
             Inl e \<Rightarrow> w
           | Inr t \<Rightarrow> add_children en rest (do_add_task en t w))
      | _ \<Rightarrow> w)"

text \<open>
  \<^verbatim>\<open>except TimeoutError\<close>: the task is marked failed, then the oracle is asked for the
  children with \<^verbatim>\<open>timeout=120\<close>. For an answer that is no dictionary, \<^verbatim>\<open>"tasks" in
  breakdown_response\<close> is false or raises, and a subscript raises; all of these end in the
  same \<^verbatim>\<open>task_count += 1; continue\<close>.
\<close>

definition handle_timeout :: "env \<Rightarrow> SubTask \<Rightarrow> world \<Rightarrow> world" where
  "handle_timeout en task w =
     (let w1 = do_update_task_status en (task_id task) ''failed'' w;
          w2 = emit (QueriedJson (Some 120)) w1;
          w3 = (case query_breakdown en of
                  Inr (JObj breakdown_response) \<Rightarrow>
                    (case fmlookup breakdown_response ''tasks'' of
                       Some new_tasks \<Rightarrow>
                         (case py_iter new_tasks of
                            Inr xs \<Rightarrow> add_children en xs w2
                          | Inl e \<Rightarrow> w2)
                     | None \<Rightarrow> w2)
                | _ \<Rightarrow> w2)
      in w3\<lparr>task_count := task_count w3 + 1\<rparr>)"

subsection \<open>Writing the files\<close>

fun write_files :: "env \<Rightarrow> ppath \<Rightarrow> (string \<times> string) list \<Rightarrow> world \<Rightarrow> world \<times> exn option" where
  "write_files en project_dir [] w = (w, None)"
| "write_files en project_dir ((path, content) # rest) w =
     (let full_path = path_str (path_join project_dir path)
      in case write_file en full_path content of
           Some e \<Rightarrow> (w, Some e)
         | None \<Rightarrow> write_files en project_dir rest (emit (FileWritten full_path content) w))"

subsection \<open>The verdict on the test run\<close>

definition error_patterns :: "string list" where
  "error_patterns = [''error'', ''Error'', ''ERROR'', ''failed'', ''Failed'', ''FAILED'',
                     ''exception'', ''Exception'', ''EXCEPTION'']"

text \<open>\<^verbatim>\<open>pattern in output\<close> on strings: \<open>pattern\<close> occurs in \<open>output\<close> as a contiguous piece.\<close>

definition has_error :: "string \<Rightarrow> bool" where
  "has_error output = list_ex (\<lambda>pattern. sublist pattern output) error_patterns"

text \<open>
  \<^verbatim>\<open>if exit_code == 0 and not has_error:\<close> the task is marked completed and the change is
  committed; otherwise it is marked failed. An exception of git or of the oracle leaves
  the block.
\<close>

definition record_verdict :: "env \<Rightarrow> SubTask \<Rightarrow> int \<Rightarrow> string \<Rightarrow> world \<Rightarrow> world \<times> exn option" where
  "record_verdict en task exit_code output w =
     (if exit_code = 0 \<and> \<not> has_error output
      then
        (let w1 = do_update_task_status en (task_id task) ''completed'' w
         in case get_diff en of
              Inl e \<Rightarrow> (w1, Some e)
            | Inr diff \<Rightarrow>
                (case get_untracked_files en of
                   Inl e \<Rightarrow> (w1, Some e)
                 | Inr untracked \<Rightarrow>
                     (let w2 = emit (Queried None) w1
                      in case query_commit_msg en of
                           Inl e \<Rightarrow> (w2, Some e)
                         | Inr commit_msg \<Rightarrow>
                             (case commit en commit_msg of
                                Some e \<Rightarrow> (w2, Some e)
                              | None \<Rightarrow> (emit (Committed commit_msg) w2, None)))))
      else (do_update_task_status en (task_id task) ''failed'' w, None))"

subsection \<open>The refinement step\<close>

text \<open>
  The two texts \<^verbatim>\<open>json.dumps(..., sort_keys=True)\<close> are equal exactly when the two values
  are; \<^verbatim>\<open>old_tasks_repr\<close> is computed after the call of \<^verbatim>\<open>refine\<close>, from the list as the
  call leaves it.
\<close>

definition refine_step ::
    "env \<Rightarrow> SubTask \<Rightarrow> string \<Rightarrow> string \<Rightarrow> string \<Rightarrow> int \<Rightarrow> world \<Rightarrow> world \<times> exn option" where
  "refine_step en task coder_response result_context file_context exit_code w =
     (let current_tasks_dict = map (\<lambda>t. JObj (model_dump False t)) (tasks (task_manager w));
          w1 = emit (QueriedJson None) w
      in case refine (query_refine en) (requirement (task_manager w)) current_tasks_dict
                coder_response result_context file_context exit_code (task_id task) of
           (updated_tasks, current_after) \<Rightarrow>
             (if JArr current_after \<noteq> updated_tasks
              then (case set_tasks (task_manager w1) updated_tasks None of
                      Inl e \<Rightarrow> (w1, Some e)
                    | Inr tm' \<Rightarrow> (emit (TasksReplaced updated_tasks) (w1\<lparr>task_manager := tm'\<rparr>), None))
              else (w1, None)))"

subsection \<open>The body of the loop\<close>

text \<open>
  The \<^verbatim>\<open>try\<close> block, for the task \<^verbatim>\<open>get_next_task\<close> returned; \<open>timeout\<close> is the deadline of the
  implementation query.
\<close>

definition try_block :: "env \<Rightarrow> ppath \<Rightarrow> int option \<Rightarrow> SubTask \<Rightarrow> world \<Rightarrow> world \<times> outcome" where
  "try_block en project_dir timeout task w =
     (let w1 = do_update_task_status en (task_id task) ''in_progress'' w;
          file_context = get_file_context en;
          w2 = emit (Queried timeout) w1
      in case query_coder en of
           Inl e \<Rightarrow>
             (if e = TimeoutError then (handle_timeout en task w2, ContinueStmt)
              else (w2, Raised e))
         | Inr None \<Rightarrow>
             (let w3 = do_update_task_status en (task_id task) ''failed'' w2
              in (w3\<lparr>task_count := task_count w3 + 1\<rparr>, ContinueStmt))
         | Inr (Some coder_response) \<Rightarrow>
             (case write_files en project_dir
                     (parse_files_from_response project_dir coder_response) w2 of
                (w3, Some e) \<Rightarrow> (w3, Raised e)
              | (w3, None) \<Rightarrow>
                  (let w4 = emit (CommandRun (test_command task)) w3
                   in case run_command en (test_command task) of
                        Inl e \<Rightarrow> (w4, Raised e)
                      | Inr (exit_code, output) \<Rightarrow>
                          (let result_context =
                                 ''Task '' @ [CHR 0x27] @ py_str en (title task) @ [CHR 0x27, CHR '' ''] @
                                 (if exit_code = 0 then ''passed'' else ''failed'') @
                                 [CHR 0x0A] @ ''Output:'' @ [CHR 0x0A] @ output
                           in case record_verdict en task exit_code output w4 of
                                (w5, Some e) \<Rightarrow> (w5, Raised e)
                              | (w5, None) \<Rightarrow>
                                  (case refine_step en task coder_response result_context
                                          file_context exit_code w5 of
                                     (w6, Some e) \<Rightarrow> (w6, Raised e)
                                   | (w6, None) \<Rightarrow>
                                       (if exit_code \<noteq> 0 \<and> get_next_task (task_manager w6) = None
                                        then (w6, BreakStmt)
                                        else (w6, FellThrough)))))))"

text \<open>
  One pass through \<^verbatim>\<open>while True\<close>, after the test on \<^verbatim>\<open>max_tasks\<close>: without an actionable
  task the loop ends; \<^verbatim>\<open>except Exception\<close> marks the task failed; \<^verbatim>\<open>task_count\<close> is
  incremented at the end unless the block left with \<^verbatim>\<open>continue\<close> or \<^verbatim>\<open>break\<close>.
\<close>

definition run_iteration :: "env \<Rightarrow> ppath \<Rightarrow> int option \<Rightarrow> world \<Rightarrow> world \<times> control" where
  "run_iteration en project_dir timeout w =
     (case get_next_task (task_manager w) of
        None \<Rightarrow> (w, LoopExit)
      | Some task \<Rightarrow>
          (case try_block en project_dir timeout task w of
             (w', Raised e) \<Rightarrow>
               (let w'' = do_update_task_status en (task_id task) ''failed'' w'
                in (w''\<lparr>task_count := task_count w'' + 1\<rparr>, NextIteration))
           | (w', ContinueStmt) \<Rightarrow> (w', NextIteration)
           | (w', BreakStmt) \<Rightarrow> (w', LoopExit)
           | (w', FellThrough) \<Rightarrow> (w'\<lparr>task_count := task_count w' + 1\<rparr>, NextIteration)))"

section \<open>Predicates of the specification\<close>

text \<open>
  The four statuses of the specification; a task list all of whose statuses are among them;
  and an entry of an incoming list whose status, where it gives one, is among them.
\<close>

definition valid_status :: "json \<Rightarrow> bool" where
  "valid_status s =
     (s \<in> set [JStr ''pending'', JStr ''in_progress'', JStr ''completed'', JStr ''failed''])"

definition statuses_ok :: "SubTask list \<Rightarrow> bool" where
  "statuses_ok ts = list_all (\<lambda>t. valid_status (status t)) ts"

definition entry_ok :: "json \<Rightarrow> bool" where
  "entry_ok x =
     (case x of
        JObj d \<Rightarrow> (case fmlookup d ''status'' of None \<Rightarrow> True | Some s \<Rightarrow> valid_status s)
      | _ \<Rightarrow> True)"

section \<open>Reading a state\<close>

text \<open>
  Names for what the theorems speak of: the entries the decomposition query answered; the
  tasks \<^verbatim>\<open>SubTask\<close> makes of them, up to the first entry it rejects; the time stamps
  \<^verbatim>\<open>add_task\<close> gives, one tick of the clock per task; and the status stored for an id.
\<close>

definition returned_children :: "env \<Rightarrow> json list" where
  "returned_children en =
     (case query_breakdown en of
        Inr (JObj breakdown_response) \<Rightarrow>
          (case fmlookup breakdown_response ''tasks'' of
             Some new_tasks \<Rightarrow> (case py_iter new_tasks of Inr xs \<Rightarrow> xs | Inl e \<Rightarrow> [])
           | None \<Rightarrow> [])
      | _ \<Rightarrow> [])"

fun accepted_children :: "json list \<Rightarrow> SubTask list" where
  "accepted_children [] = []"
| "accepted_children (x # xs) =
     (case x of
        JObj d \<Rightarrow> (case SubTask_init d of Inr t \<Rightarrow> t # accepted_children xs | Inl e \<Rightarrow> [])
      | _ \<Rightarrow> [])"

fun stamp_from :: "env \<Rightarrow> nat \<Rightarrow> SubTask list \<Rightarrow> SubTask list" where
  "stamp_from en k [] = []"
| "stamp_from en k (t # ts) =
     (if \<not> truthy (updated_time t) then t\<lparr>updated_time := JStr (utcnow en k)\<rparr> else t)
       # stamp_from en (Suc k) ts"

text \<open>
  An entry of the answer that \<^verbatim>\<open>SubTask\<close> accepts, and the id an entry carries.
\<close>

definition accepted_entry :: "json \<Rightarrow> bool" where
  "accepted_entry x =
     (case x of
        JObj d \<Rightarrow> (case SubTask_init d of Inr t \<Rightarrow> True | Inl e \<Rightarrow> False)
      | _ \<Rightarrow> False)"

definition entry_id :: "json \<Rightarrow> json" where
  "entry_id x = (case x of JObj d \<Rightarrow> dict_get d ''id'' | _ \<Rightarrow> JNull)"

definition stored_status :: "json \<Rightarrow> world \<Rightarrow> json option" where
  "stored_status tid w =
     map_option status (find (\<lambda>t. task_id t = tid) (tasks (task_manager w)))"

text \<open>
  A path is inside the root when, with every \<^verbatim>\<open>..\<close> resolved against the component before
  it, it starts with the components of the root.
\<close>

fun collapse :: "string list \<Rightarrow> string list \<Rightarrow> string list" where
  "collapse stack [] = rev stack"
| "collapse stack (p # ps) =
     (if p = ''..'' then collapse (tl stack) ps else collapse (p # stack) ps)"

definition inside_root :: "ppath \<Rightarrow> ppath \<Rightarrow> bool" where
  "inside_root project_dir target =
     (root target = root project_dir \<and>
      prefix (collapse [] (parts project_dir)) (collapse [] (parts target)))"

section \<open>Example values\<close>

definition example_task :: SubTask where
  "example_task = \<lparr>task_id = JStr ''1'', title = JStr ''Health endpoint'',
     description = JStr ''Add /health'', test_command = JStr ''pytest'',
     status = JStr ''completed'', updated_time = JStr ''2024-01-01T00:00:00''\<rparr>"

definition example_manager :: TaskManager where
  "example_manager = \<lparr>tasks = [example_task], requirement = JStr ''add a health endpoint'',
     tasks_file = None\<rparr>"

definition example_dict :: "(string, json) fmap" where
  "example_dict = fmap_of_list [(''id'', JStr ''1''), (''title'', JStr ''Health endpoint''),
     (''description'', JStr ''Add /health''), (''test_command'', JStr ''pytest''),
     (''status'', JStr ''pending'')]"

definition example_replaced :: TaskManager where
  "example_replaced = save_tasks \<lparr>tasks = [example_task\<lparr>status := JStr ''pending''\<rparr>],
     requirement = JStr ''new'', tasks_file = None\<rparr>"

definition example_pending :: TaskManager where
  "example_pending = \<lparr>tasks = [example_task\<lparr>status := JStr ''pending'', updated_time := JNull\<rparr>],
     requirement = JStr ''add a health endpoint'', tasks_file = None\<rparr>"

definition example_child :: "string \<Rightarrow> json" where
  "example_child i = JObj (fmap_of_list [(''id'', JStr i), (''title'', JStr ''Part''),
     (''description'', JStr ''A part of the endpoint''), (''test_command'', JStr ''pytest''),
     (''status'', JStr ''pending'')])"

definition example_child_task :: "string \<Rightarrow> SubTask" where
  "example_child_task i = \<lparr>task_id = JStr i, title = JStr ''Part'',
     description = JStr ''A part of the endpoint'', test_command = JStr ''pytest'',
     status = JStr ''pending'', updated_time = JStr ''2024-06-01T00:00:00''\<rparr>"

text \<open>
  An iteration in which the implementation query times out, the decomposition returns the
  children \<^verbatim>\<open>1-1\<close> and \<^verbatim>\<open>1-2\<close>, and the refiner's oracle fails.
\<close>

definition example_env :: env where
  "example_env = \<lparr>utcnow = (\<lambda>n. ''2024-06-01T00:00:00''),
     py_str = (\<lambda>v. case v of JStr s \<Rightarrow> s | _ \<Rightarrow> ''None''),
     get_file_context = [],
     query_coder = Inl TimeoutError,
     query_breakdown = Inr (JObj (fmap_of_list
        [(''tasks'', JArr [example_child ''1-1'', example_child ''1-2''])])),
     write_file = (\<lambda>p c. None),
     run_command = (\<lambda>c. Inr (0, ''ok'')),
     get_diff = Inr [],
     get_untracked_files = Inr [],
     query_commit_msg = Inr (Some ''Add health endpoint''),
     commit = (\<lambda>m. None),
     query_refine = (\<lambda>p. Inl OtherError)\<rparr>"

definition example_world :: world where
  "example_world = \<lparr>task_manager = example_pending, clock = 0, trace = [], task_count = 0\<rparr>"

definition example_refine_oracle :: "refine_prompt \<Rightarrow> exn + json" where
  "example_refine_oracle p = Inr (JObj (fmap_of_list [(''tasks'', JArr [JObj example_dict])]))"

definition example_document :: json where
  "example_document = JObj (fmap_of_list [(''requirement'', JStr ''new''),
     (''tasks'', JArr [JObj (model_dump False (example_task\<lparr>status := JStr ''pending''\<rparr>))])])"

definition example_pending_task :: SubTask where
  "example_pending_task = example_task\<lparr>status := JStr ''pending'', updated_time := JNull\<rparr>"

definition example_env_dup :: env where
  "example_env_dup = example_env\<lparr>query_breakdown :=
     Inr (JObj (fmap_of_list [(''tasks'', JArr [example_child ''1''])]))\<rparr>"



definition example_fence :: string where
  "example_fence = [CHR 0x0A, CHR ''`'', CHR ''`'', CHR ''`'']"

definition example_twice :: string where
  "example_twice = ''FILE: a'' @ example_fence @ ''py'' @ [CHR 0x0A] @ ''x'' @ example_fence @
     [CHR 0x0A] @ ''FILE: ./a'' @ example_fence @ [CHR 0x0A] @ ''y'' @ example_fence"

definition example_escape :: string where
  "example_escape = ''FILE: ../evil.txt'' @ example_fence @ [CHR 0x0A] @ ''x'' @ example_fence"

definition example_env_escape :: env where
  "example_env_escape = example_env\<lparr>query_coder := Inr (Some example_escape)\<rparr>"

section \<open>Properties of the task store\<close>

lemma for_append_all2:
  "for_append body xs = Inr ys \<Longrightarrow> list_all2 (\<lambda>x y. body x = Inr y) xs ys"
  by (induction xs arbitrary: ys) (auto split: sum.splits)

lemma for_append_map:
  "(\<And>x. x \<in> set xs \<Longrightarrow> body (f x) = Inr x) \<Longrightarrow> for_append body (map f xs) = Inr xs"
  by (induction xs) simp_all

lemma SubTask_init_model_dump:
  "SubTask_init (model_dump False t) = Inr t"
  by (simp add: SubTask_init_def model_dump_def SubTask_params_def)

lemma model_dump_has_updated_time:
  "''updated_time'' |\<in>| fmdom (model_dump False t)"
  by (simp add: model_dump_def)

lemma load_body_model_dump:
  "load_body (JObj (model_dump False t)) = Inr t"
  by (simp add: load_body_def SubTask_init_model_dump model_dump_has_updated_time)

lemma save_tasks_document:
  "save_tasks tm =
     tm\<lparr>tasks_file :=
          Some (JObj (fmap_of_list [(''requirement'', requirement tm),
                 (''tasks'', JArr (map (\<lambda>t. JObj (model_dump False t)) (tasks tm)))]))\<rparr>"
  by (simp add: save_tasks_def Let_def model_dump_has_updated_time)

lemma load_tasks_save_tasks:
  "load_tasks (save_tasks tm) = Inr (save_tasks tm)"
  by (simp add: save_tasks_document load_tasks_def for_append_map load_body_model_dump)

lemma set_tasks_saved:
  "set_tasks tm new_list req = Inr tm' \<Longrightarrow> \<exists>tm0. tm' = save_tasks tm0"
  by (auto simp: set_tasks_def split: if_splits sum.splits)


lemma existing_tasks_map_distinct:
  "distinct (map task_id ts) \<Longrightarrow> e \<in> set ts \<Longrightarrow> existing_tasks_map ts (task_id e) = Some e"
  unfolding existing_tasks_map_def
  by (rule map_of_is_SomeI) (auto simp: rev_map [symmetric] o_def)

lemma SubTask_init_fields:
  "SubTask_init kw = Inr t \<Longrightarrow>
     task_id t = dict_get kw ''id'' \<and>
     status t = (case fmlookup kw ''status'' of None \<Rightarrow> JStr ''pending'' | Some s \<Rightarrow> s) \<and>
     updated_time t = dict_get kw ''updated_time''"
  by (auto simp: SubTask_init_def dict_get_def split: if_splits option.splits)


text \<open>
  C9. Persisting and loading is a round trip: after a \<^verbatim>\<open>set_tasks\<close> that returns, loading
  the file, into the same manager or into a new one, gives the manager as it is: the same
  requirement and the same tasks in the same order, field by field.
\<close>

theorem load_after_set_tasks_roundtrip:
  assumes "set_tasks tm new_list req = Inr tm'"
  shows "load_tasks tm' = Inr tm' \<and> TaskManager_init (tasks_file tm') = Inr tm'"
proof -
  from assms obtain tm0 where tm': "tm' = save_tasks tm0"
    using set_tasks_saved by blast
  have "load_tasks tm' = Inr tm'"
    unfolding tm' by (rule load_tasks_save_tasks)
  moreover have "TaskManager_init (tasks_file tm') = Inr tm'"
    unfolding tm' TaskManager_init_def
    by (simp add: save_tasks_document load_tasks_def for_append_map load_body_model_dump)
  ultimately show ?thesis by simp
qed

lemma set_tasks_example:
  "set_tasks example_manager (JArr [JObj example_dict]) (Some ''new'') = Inr example_replaced"
  by (simp add: set_tasks_def example_manager_def example_task_def example_dict_def
        existing_tasks_map_def set_tasks_body_def dict_get_def SubTask_init_def
        SubTask_params_def example_replaced_def)

theorem load_after_set_tasks_roundtrip_witness:
  "set_tasks example_manager (JArr [JObj example_dict]) (Some ''new'') = Inr example_replaced \<and>
   load_tasks example_replaced = Inr example_replaced \<and>
   TaskManager_init (tasks_file example_replaced) = Inr example_replaced"
  using load_after_set_tasks_roundtrip [OF set_tasks_example] set_tasks_example by simp



section \<open>Properties of the refiner\<close>

lemma refine_oracle_fails:
  "query_json (req, old_tasks, cr, rc, fc, ec, lid) = Inl e \<Longrightarrow>
     refine query_json req old_tasks cr rc fc ec lid = (JArr old_tasks, old_tasks)"
  by (simp add: refine_def)

lemma refine_step_oracle_fails:
  assumes "query_refine en (requirement (task_manager w),
             map (\<lambda>t. JObj (model_dump False t)) (tasks (task_manager w)),
             cr, rc, fc, ec, task_id task) = Inl e"
  shows "refine_step en task cr rc fc ec w = (emit (QueriedJson None) w, None)"
  using assms by (simp add: refine_step_def refine_oracle_fails)

text \<open>
  C6. If the oracle call inside \<^verbatim>\<open>refine\<close> raises (an error of the oracle, or an answer that
  is no JSON), \<^verbatim>\<open>refine\<close> returns its input list, unchanged, whatever the other arguments
  are; and the refinement step of the loop then leaves the task manager, its file included,
  as it was and raises nothing.
\<close>

theorem refine_noop_when_oracle_fails:
  "(query_json (req, old_tasks, cr, rc, fc, ec, lid) = Inl e \<longrightarrow>
      refine query_json req old_tasks cr rc fc ec lid = (JArr old_tasks, old_tasks)) \<and>
   (query_refine en (requirement (task_manager w),
        map (\<lambda>t. JObj (model_dump False t)) (tasks (task_manager w)),
        cr, rc, fc, ec, task_id task) = Inl e' \<longrightarrow>
      task_manager (fst (refine_step en task cr rc fc ec w)) = task_manager w \<and>
      snd (refine_step en task cr rc fc ec w) = None)"
  by (simp add: refine_oracle_fails refine_step_oracle_fails emit_def)

theorem refine_noop_when_oracle_fails_witness:
  "query_refine example_env (JNull, [JObj example_dict], ''response'', ''result'', ''files'', 1, JStr ''1'')
     = Inl OtherError \<and>
   refine (query_refine example_env) JNull [JObj example_dict] ''response'' ''result'' ''files'' 1
     (JStr ''1'') = (JArr [JObj example_dict], [JObj example_dict]) \<and>
   query_refine example_env (requirement (task_manager example_world),
      map (\<lambda>t. JObj (model_dump False t)) (tasks (task_manager example_world)),
      ''response'', ''result'', ''files'', 1, task_id example_task) = Inl OtherError \<and>
   task_manager (fst (refine_step example_env example_task ''response'' ''result'' ''files'' 1
      example_world)) = task_manager example_world"
proof -
  have q: "query_refine example_env p = Inl OtherError" for p
    by (simp add: example_env_def)
  from refine_noop_when_oracle_fails
         [of "query_refine example_env" JNull "[JObj example_dict]" "''response''" "''result''"
             "''files''" 1 "JStr ''1''" OtherError example_env example_world example_task
             OtherError]
  show ?thesis using q by simp
qed

lemma for_inplace_all2:
  "for_inplace body xs = (xs', None) \<Longrightarrow> list_all2 (\<lambda>x x'. body x = (x', None)) xs xs'"
  by (induction xs arbitrary: xs') (auto split: prod.splits option.splits)

lemma for_inplace_fixed:
  "(\<And>x. x \<in> set xs \<Longrightarrow> body x = (x, None)) \<Longrightarrow> for_inplace body xs = (xs, None)"
  by (induction xs) simp_all

lemma fmupd_same: "fmlookup m k = Some v \<Longrightarrow> fmupd k v m = m"
  by (rule fmap_ext) auto

lemma model_dump_lookups:
  "dict_get (model_dump False t) ''id'' = task_id t"
  "fmlookup (model_dump False t) ''status'' = Some (status t)"
  "fmlookup (model_dump False t) ''updated_time'' = Some (updated_time t)"
  by (simp_all add: model_dump_def dict_get_def)

lemma refine_body_result:
  assumes "refine_body m x = (x', None)"
  shows "\<exists>d n. x = JObj d \<and> x' = JObj n \<and> dict_get n ''id'' = dict_get d ''id'' \<and>
           (\<forall>e. m (dict_get d ''id'') = Some e \<and> fmlookup e ''status'' = Some (JStr ''completed'')
                \<longrightarrow> fmlookup n ''status'' = Some (JStr ''completed''))"
  using assms
  by (cases x) (auto simp: refine_body_def Let_def dict_get_def split: if_splits option.splits)

lemma refine_key_model_dump:
  "refine_key (JObj (model_dump False t)) =
     (if hashable (task_id t) then Inr (task_id t, model_dump False t) else Inl TypeError)"
  by (simp add: refine_key_def model_dump_lookups)

lemma for_append_refine_key:
  "for_append refine_key (map (\<lambda>t. JObj (model_dump False t)) ts) = Inr kvs \<Longrightarrow>
     kvs = map (\<lambda>t. (task_id t, model_dump False t)) ts \<and> list_all (\<lambda>t. hashable (task_id t)) ts"
  by (induction ts arbitrary: kvs) (auto simp: refine_key_model_dump split: if_splits sum.splits)

lemma refine_map_model_dump:
  assumes "refine_existing_tasks_map (map (\<lambda>t. JObj (model_dump False t)) ts) = Inr m"
    and "distinct (map task_id ts)" and "t \<in> set ts"
  shows "m (task_id t) = Some (model_dump False t) \<and> hashable (task_id t)"
proof -
  from assms(1) obtain kvs where
    kvs: "for_append refine_key (map (\<lambda>t. JObj (model_dump False t)) ts) = Inr kvs"
    and m: "m = map_of (rev kvs)"
    by (auto simp: refine_existing_tasks_map_def split: sum.splits)
  from for_append_refine_key [OF kvs] have
    k: "kvs = map (\<lambda>t. (task_id t, model_dump False t)) ts"
    and h: "list_all (\<lambda>t. hashable (task_id t)) ts" by simp_all
  have "map_of (rev kvs) (task_id t) = Some (model_dump False t)"
    unfolding k using assms(2,3)
    by (intro map_of_is_SomeI) (auto simp: rev_map [symmetric] o_def)
  with m h assms(3) show ?thesis by (auto simp: list_all_iff)
qed

lemma refine_body_model_dump:
  assumes "m (task_id t) = Some (model_dump False t)" and "hashable (task_id t)"
  shows "refine_body m (JObj (model_dump False t)) = (JObj (model_dump False t), None)"
  using assms
  by (simp add: refine_body_def Let_def model_dump_lookups model_dump_has_updated_time fmupd_same)

lemma set_tasks_body_fields:
  assumes "set_tasks_body M x = Inr t"
  shows "\<exists>n. x = JObj n \<and> task_id t = dict_get n ''id'' \<and>
           status t = (case fmlookup n ''status'' of None \<Rightarrow> JStr ''pending'' | Some s \<Rightarrow> s)"
  using assms
  by (cases x)
     (auto simp: set_tasks_body_def Let_def dict_get_def dest!: SubTask_init_fields
           split: if_splits option.splits)

lemma set_tasks_body_model_dump:
  "set_tasks_body M (JObj (model_dump False t)) = Inr t' \<Longrightarrow> t' = t"
  by (auto simp: set_tasks_body_def Let_def model_dump_has_updated_time SubTask_init_model_dump
           split: if_splits option.splits)

lemma refine_cases:
  assumes "refine q req cur cr rc fc ec lid = (updated, after)"
  shows "updated = JArr cur \<or>
         (\<exists>m xs' r. refine_existing_tasks_map cur = Inr m \<and>
                     for_inplace (refine_body m) cur = (xs', r) \<and> updated = JArr xs') \<or>
         (\<exists>m response new_tasks xs xs'. refine_existing_tasks_map cur = Inr m \<and>
             q (req, cur, cr, rc, fc, ec, lid) = Inr (JObj response) \<and>
             fmlookup response ''tasks'' = Some new_tasks \<and>
             py_iter new_tasks = Inr xs \<and> for_inplace (refine_body m) xs = (xs', None) \<and>
             updated = (case new_tasks of JArr ys \<Rightarrow> JArr xs' | v \<Rightarrow> v))"
proof (cases "q (req, cur, cr, rc, fc, ec, lid)")
  case (Inl e)
  with assms show ?thesis by (auto simp: refine_def)
next
  case (Inr v)
  show ?thesis
  proof (cases "\<exists>response. v = JObj response")
    case False
    with Inr assms show ?thesis by (cases v) (auto simp: refine_def)
  next
    case True
    then obtain response where v: "v = JObj response" by blast
    show ?thesis
    proof (cases "refine_existing_tasks_map cur")
      case (Inl e)
      with Inr v assms show ?thesis by (auto simp: refine_def split: option.splits)
    next
      case m: (Inr m)
      show ?thesis
      proof (cases "fmlookup response ''tasks''")
        case None
        with Inr v m assms show ?thesis
          by (auto simp: refine_def split: prod.splits)
      next
        case (Some new_tasks)
        show ?thesis
        proof (cases "py_iter new_tasks")
          case (Inl e)
          with Inr v m Some assms show ?thesis by (auto simp: refine_def)
        next
          case xs: (Inr xs)
          obtain xs' r where f: "for_inplace (refine_body m) xs = (xs', r)"
            by (cases "for_inplace (refine_body m) xs") blast
          show ?thesis
          proof (cases r)
            case None
            with Inr v m Some xs f assms
            have "updated = (case new_tasks of JArr ys \<Rightarrow> JArr xs' | v \<Rightarrow> v)"
              by (simp add: refine_def)
            with m xs f None Inr v \<open>fmlookup response ''tasks'' = Some new_tasks\<close>
            show ?thesis by blast
          next
            case (Some e)
            with Inr v m \<open>fmlookup response ''tasks'' = Some new_tasks\<close> xs f assms
            show ?thesis by (auto simp: refine_def)
          qed
        qed
      qed
    qed
  qed
qed


lemma set_tasks_all2:
  assumes "set_tasks tm new_list req = Inr tm'"
  shows "\<exists>ds. py_iter new_list = Inr ds \<and>
           list_all2 (\<lambda>x y. set_tasks_body (existing_tasks_map (tasks tm)) x = Inr y) ds (tasks tm')"
proof -
  from assms obtain ds ts where
    ds: "py_iter new_list = Inr ds" and
    ts: "for_append (set_tasks_body (existing_tasks_map (tasks tm))) ds = Inr ts" and
    tm': "tasks tm' = ts"
    by (auto simp: set_tasks_def save_tasks_document split: if_splits sum.splits)
  from for_append_all2 [OF ts] ds tm' show ?thesis by simp
qed

lemma py_iter_not_array:
  assumes "py_iter v = Inr xs" and "\<forall>ys. v \<noteq> JArr ys" and "x \<in> set xs"
  shows "\<exists>s. x = JStr s"
  using assms by (cases v) auto

lemma distinct_same_id:
  "distinct (map task_id ts) \<Longrightarrow> a \<in> set ts \<Longrightarrow> b \<in> set ts \<Longrightarrow> task_id a = task_id b \<Longrightarrow> a = b"
  by (meson distinct_map inj_onD)

text \<open>
  C1, as the claim states it, fails: \<^verbatim>\<open>set_tasks\<close> stores the status the incoming entry
  carries. The manager holds task \<^verbatim>\<open>1\<close>, completed; replacing the list by an entry for
  \<^verbatim>\<open>1\<close> with status \<^verbatim>\<open>pending\<close> leaves task \<^verbatim>\<open>1\<close> pending.
\<close>

theorem set_tasks_reverts_completed_counterexample:
  "tasks example_manager = [example_task] \<and> status example_task = JStr ''completed'' \<and>
   dict_get example_dict ''id'' = task_id example_task \<and>
   set_tasks example_manager (JArr [JObj example_dict]) (Some ''new'') = Inr example_replaced \<and>
   tasks example_replaced = [example_task\<lparr>status := JStr ''pending''\<rparr>]"
  using set_tasks_example
  by (simp add: example_manager_def example_task_def example_dict_def dict_get_def
        example_replaced_def save_tasks_document)

text \<open>
  C1, amended. The guard is in \<^verbatim>\<open>refine\<close>, not in \<^verbatim>\<open>set_tasks\<close>. In the control loop the list
  given to \<^verbatim>\<open>set_tasks\<close> is the one \<^verbatim>\<open>refine\<close> returned for the current tasks. Then, when
  the ids of the current tasks are unique, every task of the new state whose id is the id of
  a task that was completed is completed, whatever the oracle answered. A completed task can
  still disappear by being left out.
\<close>

theorem refine_then_set_tasks_keeps_completed:
  assumes d: "distinct (map task_id (tasks tm))"
    and r: "refine q (requirement tm) (map (\<lambda>t. JObj (model_dump False t)) (tasks tm))
              cr rc fc ec lid = (updated, after)"
    and s: "set_tasks tm updated None = Inr tm'"
    and t: "t \<in> set (tasks tm)" "status t = JStr ''completed''"
    and t': "t' \<in> set (tasks tm')" "task_id t' = task_id t"
  shows "status t' = JStr ''completed''"
proof -
  let ?cur = "map (\<lambda>t. JObj (model_dump False t)) (tasks tm)"
  let ?M = "existing_tasks_map (tasks tm)"
  from set_tasks_all2 [OF s] obtain ds where
    ds: "py_iter updated = Inr ds" and
    all2: "list_all2 (\<lambda>x y. set_tasks_body ?M x = Inr y) ds (tasks tm')"
    by blast
  from t'(1) obtain i where i: "i < length (tasks tm')" "tasks tm' ! i = t'"
    by (auto simp: in_set_conv_nth)
  have len: "length ds = length (tasks tm')"
    using all2 by (rule list_all2_lengthD)
  have body: "set_tasks_body ?M (ds ! i) = Inr t'"
    using list_all2_nthD [OF all2] i len by auto
  have unchanged: "status t' = JStr ''completed''" if "updated = JArr ?cur"
  proof -
    from that ds have "ds = ?cur" by simp
    with body i len have "set_tasks_body ?M (JObj (model_dump False (tasks tm ! i))) = Inr t'"
      by auto
    then have "t' = tasks tm ! i" by (rule set_tasks_body_model_dump)
    moreover have "i < length (tasks tm)" using \<open>ds = ?cur\<close> len i by auto
    ultimately have "t' \<in> set (tasks tm)" by simp
    with d t t' have "t' = t" by (intro distinct_same_id [of "tasks tm"]) simp_all
    with t show ?thesis by simp
  qed
  from refine_cases [OF r] consider
      (same) "updated = JArr ?cur"
    | (inplace) m xs' r' where "refine_existing_tasks_map ?cur = Inr m"
        "for_inplace (refine_body m) ?cur = (xs', r')" "updated = JArr xs'"
    | (answered) m new_tasks xs xs' where "refine_existing_tasks_map ?cur = Inr m"
        "py_iter new_tasks = Inr xs" "for_inplace (refine_body m) xs = (xs', None)"
        "updated = (case new_tasks of JArr ys \<Rightarrow> JArr xs' | v \<Rightarrow> v)"
    by blast
  then show ?thesis
  proof cases
    case same
    then show ?thesis by (rule unchanged)
  next
    case inplace
    have "refine_body m x = (x, None)" if "x \<in> set ?cur" for x
    proof -
      from that obtain u where u: "u \<in> set (tasks tm)" "x = JObj (model_dump False u)" by auto
      from refine_map_model_dump [OF inplace(1) d u(1)] u(2) show ?thesis
        by (simp add: refine_body_model_dump)
    qed
    then have "for_inplace (refine_body m) ?cur = (?cur, None)"
      by (rule for_inplace_fixed)
    with inplace have "updated = JArr ?cur" by simp
    then show ?thesis by (rule unchanged)
  next
    case answered
    show ?thesis
    proof (cases "\<exists>ys. new_tasks = JArr ys")
      case False
      with answered(4) have u: "updated = new_tasks" by (cases new_tasks) simp_all
      with ds answered(2) have "ds = xs" by simp
      moreover have "ds ! i \<in> set ds" using i len by simp
      ultimately obtain str where "ds ! i = JStr str"
        using py_iter_not_array [OF answered(2)] False by blast
      with body show ?thesis by (simp add: set_tasks_body_def)
    next
      case True
      then obtain ys where ys: "new_tasks = JArr ys" by blast
      with answered have xs: "xs = ys" and u: "updated = JArr xs'" by simp_all
      from u ds have dsx: "ds = xs'" by simp
      have rall2: "list_all2 (\<lambda>x x'. refine_body m x = (x', None)) xs xs'"
        using answered(3) by (rule for_inplace_all2)
      have ix: "i < length xs" using rall2 dsx len i by (simp add: list_all2_lengthD)
      have "refine_body m (xs ! i) = (xs' ! i, None)"
        using list_all2_nthD [OF rall2 ix] .
      from refine_body_result [OF this] obtain dd n where
        n: "xs' ! i = JObj n" "dict_get n ''id'' = dict_get dd ''id''" and
        st: "\<And>e. m (dict_get dd ''id'') = Some e \<Longrightarrow>
                 fmlookup e ''status'' = Some (JStr ''completed'') \<Longrightarrow>
                 fmlookup n ''status'' = Some (JStr ''completed'')"
        by blast
      from set_tasks_body_fields [OF body] n dsx have
        f: "task_id t' = dict_get n ''id''"
           "status t' = (case fmlookup n ''status'' of None \<Rightarrow> JStr ''pending'' | Some s \<Rightarrow> s)"
        by auto
      from refine_map_model_dump [OF answered(1) d t(1)] have
        "m (task_id t) = Some (model_dump False t)" by simp
      with f(1) n(2) t'(2) have "m (dict_get dd ''id'') = Some (model_dump False t)" by simp
      moreover have "fmlookup (model_dump False t) ''status'' = Some (JStr ''completed'')"
        using t(2) by (simp add: model_dump_lookups)
      ultimately have "fmlookup n ''status'' = Some (JStr ''completed'')" by (rule st)
      with f(2) show ?thesis by simp
    qed
  qed
qed


theorem refine_then_set_tasks_keeps_completed_witness:
  "distinct (map task_id (tasks example_manager)) \<and>
   refine example_refine_oracle (requirement example_manager)
     (map (\<lambda>t. JObj (model_dump False t)) (tasks example_manager)) [] [] [] 0 JNull
     = (JArr [JObj (model_dump False example_task)], [JObj (model_dump False example_task)]) \<and>
   set_tasks example_manager (JArr [JObj (model_dump False example_task)]) None
     = Inr (save_tasks example_manager) \<and>
   example_task \<in> set (tasks example_manager) \<and>
   example_task \<in> set (tasks (save_tasks example_manager)) \<and>
   fmlookup example_dict ''status'' = Some (JStr ''pending'') \<and>
   status example_task = JStr ''completed''"
proof -
  have d: "distinct (map task_id (tasks example_manager))"
    by (simp add: example_manager_def)
  have r: "refine example_refine_oracle (requirement example_manager)
     (map (\<lambda>t. JObj (model_dump False t)) (tasks example_manager)) [] [] [] 0 JNull
     = (JArr [JObj (model_dump False example_task)], [JObj (model_dump False example_task)])"
    by code_simp
  have s: "set_tasks example_manager (JArr [JObj (model_dump False example_task)]) None
     = Inr (save_tasks example_manager)"
    by code_simp
  have t: "example_task \<in> set (tasks example_manager)"
    by (simp add: example_manager_def)
  have t': "example_task \<in> set (tasks (save_tasks example_manager))"
    by (simp add: example_manager_def save_tasks_document)
  have p: "fmlookup example_dict ''status'' = Some (JStr ''pending'')"
    by (simp add: example_dict_def)
  have c: "status example_task = JStr ''completed''"
    by (simp add: example_task_def)
  from refine_then_set_tasks_keeps_completed [OF d r s t c t' refl]
  show ?thesis using d r s t t' p by simp
qed

section \<open>The four statuses\<close>

lemma all2_statuses_ok:
  assumes "list_all2 (\<lambda>x y. f x = Inr y) ds ts" and "list_all entry_ok ds"
    and "\<And>x y. f x = Inr y \<Longrightarrow> entry_ok x \<Longrightarrow> valid_status (status y)"
  shows "statuses_ok ts"
  using assms(1,2)
  by (induction rule: list_all2_induct) (auto simp: statuses_ok_def intro: assms(3))

lemma SubTask_init_valid:
  assumes "SubTask_init kw = Inr t" and "entry_ok (JObj kw)"
  shows "valid_status (status t)"
  using assms
  by (auto simp: entry_ok_def valid_status_def dest!: SubTask_init_fields split: option.splits)

lemma entry_ok_updated_time:
  "entry_ok (JObj (fmupd ''updated_time'' u d)) = entry_ok (JObj d)"
  by (simp add: entry_ok_def)

lemma load_body_valid:
  "load_body x = Inr t \<Longrightarrow> entry_ok x \<Longrightarrow> valid_status (status t)"
  by (cases x)
     (auto simp: load_body_def entry_ok_updated_time split: if_splits
           intro: SubTask_init_valid)

lemma set_tasks_body_valid:
  "set_tasks_body M x = Inr t \<Longrightarrow> entry_ok x \<Longrightarrow> valid_status (status t)"
  by (cases x)
     (auto simp: set_tasks_body_def Let_def entry_ok_updated_time
           split: if_splits option.splits intro: SubTask_init_valid)

lemma load_tasks_valid:
  assumes "load_tasks tm = Inr tm'" and "tasks_file tm = Some data"
    and "py_iter (case data of
                    JObj d \<Rightarrow> (case fmlookup d ''tasks'' of None \<Rightarrow> JArr [] | Some v \<Rightarrow> v)
                  | v \<Rightarrow> v) = Inr ds"
    and "list_all entry_ok ds"
  shows "statuses_ok (tasks tm')"
proof -
  from assms(1-3) have "for_append load_body ds = Inr (tasks tm')"
    by (cases data) (auto simp: load_tasks_def split: sum.splits)
  from for_append_all2 [OF this] assms(4) show ?thesis
    by (rule all2_statuses_ok) (rule load_body_valid)
qed

lemma set_tasks_valid:
  assumes "set_tasks tm new_list req = Inr tm'" and "py_iter new_list = Inr ds"
    and "list_all entry_ok ds"
  shows "statuses_ok (tasks tm')"
proof -
  from set_tasks_all2 [OF assms(1)] assms(2) have
    "list_all2 (\<lambda>x y. set_tasks_body (existing_tasks_map (tasks tm)) x = Inr y) ds (tasks tm')"
    by simp
  from this assms(3) show ?thesis
    by (rule all2_statuses_ok) (rule set_tasks_body_valid)
qed

lemma update_loop_valid:
  "statuses_ok ts \<Longrightarrow> valid_status (JStr st) \<Longrightarrow> statuses_ok (update_loop now tid st ts)"
  by (induction ts) (simp_all add: statuses_ok_def)

lemma update_task_status_valid:
  "statuses_ok (tasks tm) \<Longrightarrow> valid_status (JStr st) \<Longrightarrow>
     statuses_ok (tasks (update_task_status now tm tid st))"
  by (simp add: update_task_status_def save_tasks_document update_loop_valid)

lemma add_task_valid:
  "statuses_ok (tasks tm) \<Longrightarrow> valid_status (status t) \<Longrightarrow>
     statuses_ok (tasks (add_task now tm t))"
  by (simp add: add_task_def save_tasks_document statuses_ok_def)

lemma refine_body_entry_ok:
  "entry_ok x \<Longrightarrow> entry_ok (fst (refine_body m x))"
  by (cases x)
     (auto simp: refine_body_def Let_def entry_ok_def valid_status_def
           split: if_splits option.splits)

lemma for_inplace_entry_ok:
  "list_all entry_ok xs \<Longrightarrow> for_inplace (refine_body m) xs = (xs', r) \<Longrightarrow> list_all entry_ok xs'"
proof (induction xs arbitrary: xs' r)
  case Nil
  then show ?case by simp
next
  case (Cons x xs)
  obtain x' e where b: "refine_body m x = (x', e)" by (cases "refine_body m x") blast
  with Cons.prems(1) have x': "entry_ok x'"
    using refine_body_entry_ok [of x m] by simp
  show ?case
  proof (cases e)
    case (Some ex)
    with b Cons.prems x' show ?thesis by auto
  next
    case None
    obtain ys r' where f: "for_inplace (refine_body m) xs = (ys, r')"
      by (cases "for_inplace (refine_body m) xs") blast
    with Cons.IH [of ys r'] Cons.prems(1) have "list_all entry_ok ys" by simp
    with b None f Cons.prems(2) x' show ?thesis by auto
  qed
qed

lemma refine_valid:
  assumes old: "list_all entry_ok old"
    and ans: "\<And>response v xs. q (req, old, cr, rc, fc, ec, lid) = Inr (JObj response) \<Longrightarrow>
                fmlookup response ''tasks'' = Some v \<Longrightarrow> py_iter v = Inr xs \<Longrightarrow>
                list_all entry_ok xs"
    and ds: "py_iter (fst (refine q req old cr rc fc ec lid)) = Inr ds"
  shows "list_all entry_ok ds"
proof -
  obtain updated after where r: "refine q req old cr rc fc ec lid = (updated, after)"
    by (cases "refine q req old cr rc fc ec lid") blast
  with ds have ds': "py_iter updated = Inr ds" by simp
  from refine_cases [OF r] consider
      (same) "updated = JArr old"
    | (inplace) m xs' r' where "for_inplace (refine_body m) old = (xs', r')" "updated = JArr xs'"
    | (answered) m response new_tasks xs xs' where
        "q (req, old, cr, rc, fc, ec, lid) = Inr (JObj response)"
        "fmlookup response ''tasks'' = Some new_tasks"
        "py_iter new_tasks = Inr xs" "for_inplace (refine_body m) xs = (xs', None)"
        "updated = (case new_tasks of JArr ys \<Rightarrow> JArr xs' | v \<Rightarrow> v)"
    by blast
  then show ?thesis
  proof cases
    case same
    with ds' old show ?thesis by simp
  next
    case inplace
    from for_inplace_entry_ok [OF old inplace(1)] inplace(2) ds' show ?thesis by simp
  next
    case answered
    have xs: "list_all entry_ok xs"
      using answered(1-3) by (rule ans)
    then have xs': "list_all entry_ok xs'"
      using answered(4) by (rule for_inplace_entry_ok)
    show ?thesis
    proof (cases "\<exists>ys. new_tasks = JArr ys")
      case True
      with answered(5) ds' xs' show ?thesis by auto
    next
      case False
      with answered(5) have "updated = new_tasks" by (cases new_tasks) simp_all
      with ds' answered(3) xs show ?thesis by simp
    qed
  qed
qed

text \<open>
  C7, as the claim states it, fails: no operation checks a status. An incoming entry with
  status \<^verbatim>\<open>done\<close> is stored, and written to the file, with that status.
\<close>

theorem status_not_checked_counterexample:
  "set_tasks example_manager (JArr [JObj (fmupd ''status'' (JStr ''done'') example_dict)]) None
     = Inr (save_tasks (example_manager\<lparr>tasks := [example_task\<lparr>status := JStr ''done''\<rparr>]\<rparr>)) \<and>
   \<not> valid_status (JStr ''done'')"
  by (simp add: set_tasks_def example_manager_def example_task_def example_dict_def
        existing_tasks_map_def set_tasks_body_def dict_get_def SubTask_init_def
        SubTask_params_def valid_status_def)

text \<open>
  C7, amended. Each operation stores the statuses it is handed, and keeps the statuses
  within the four values when those it is handed are: \<^verbatim>\<open>load_tasks\<close> for the entries of the
  file, \<^verbatim>\<open>set_tasks\<close> for the entries of the new list (an entry without status gets
  \<^verbatim>\<open>pending\<close>), \<^verbatim>\<open>update_task_status\<close> for its argument, \<^verbatim>\<open>add_task\<close> for the task added,
  and \<^verbatim>\<open>refine\<close> for its input list and the list the oracle answers.
\<close>

theorem operations_preserve_valid_statuses:
  "(load_tasks tm = Inr tm' \<and> tasks_file tm = Some data \<and>
    py_iter (case data of
               JObj d \<Rightarrow> (case fmlookup d ''tasks'' of None \<Rightarrow> JArr [] | Some v \<Rightarrow> v)
             | v \<Rightarrow> v) = Inr ds \<and>
    list_all entry_ok ds \<longrightarrow> statuses_ok (tasks tm')) \<and>
   (set_tasks tm new_list req = Inr tmb \<and> py_iter new_list = Inr dsb \<and>
    list_all entry_ok dsb \<longrightarrow> statuses_ok (tasks tmb)) \<and>
   (statuses_ok (tasks tm) \<and> valid_status (JStr st) \<longrightarrow>
      statuses_ok (tasks (update_task_status now tm tid st))) \<and>
   (statuses_ok (tasks tm) \<and> valid_status (status t) \<longrightarrow>
      statuses_ok (tasks (add_task now tm t))) \<and>
   (list_all entry_ok old \<and>
    (\<forall>response v xs. q (rq, old, cr, rc, fc, ec, lid) = Inr (JObj response) \<and>
        fmlookup response ''tasks'' = Some v \<and> py_iter v = Inr xs \<longrightarrow> list_all entry_ok xs) \<and>
    py_iter (fst (refine q rq old cr rc fc ec lid)) = Inr dsc \<longrightarrow> list_all entry_ok dsc)"
proof (intro conjI impI)
  assume "load_tasks tm = Inr tm' \<and> tasks_file tm = Some data \<and>
    py_iter (case data of
               JObj d \<Rightarrow> (case fmlookup d ''tasks'' of None \<Rightarrow> JArr [] | Some v \<Rightarrow> v)
             | v \<Rightarrow> v) = Inr ds \<and> list_all entry_ok ds"
  then show "statuses_ok (tasks tm')"
    using load_tasks_valid [of tm tm' data ds] by blast
next
  assume "set_tasks tm new_list req = Inr tmb \<and> py_iter new_list = Inr dsb \<and>
    list_all entry_ok dsb"
  then show "statuses_ok (tasks tmb)"
    using set_tasks_valid [of tm new_list req tmb dsb] by blast
next
  assume "statuses_ok (tasks tm) \<and> valid_status (JStr st)"
  then show "statuses_ok (tasks (update_task_status now tm tid st))"
    by (simp add: update_task_status_valid)
next
  assume "statuses_ok (tasks tm) \<and> valid_status (status t)"
  then show "statuses_ok (tasks (add_task now tm t))"
    by (simp add: add_task_valid)
next
  assume a: "list_all entry_ok old \<and>
    (\<forall>response v xs. q (rq, old, cr, rc, fc, ec, lid) = Inr (JObj response) \<and>
        fmlookup response ''tasks'' = Some v \<and> py_iter v = Inr xs \<longrightarrow> list_all entry_ok xs) \<and>
    py_iter (fst (refine q rq old cr rc fc ec lid)) = Inr dsc"
  show "list_all entry_ok dsc"
  proof (rule refine_valid [of old q rq cr rc fc ec lid dsc])
    show "list_all entry_ok old" using a by blast
    show "py_iter (fst (refine q rq old cr rc fc ec lid)) = Inr dsc" using a by blast
    show "list_all entry_ok xs"
      if "q (rq, old, cr, rc, fc, ec, lid) = Inr (JObj response)"
        "fmlookup response ''tasks'' = Some v" "py_iter v = Inr xs" for response v xs
      using a that by blast
  qed
qed

theorem operations_preserve_valid_statuses_witness:
  "(load_tasks example_replaced = Inr example_replaced \<and>
    tasks_file example_replaced = Some example_document \<and>
    list_all entry_ok [JObj (model_dump False (example_task\<lparr>status := JStr ''pending''\<rparr>))] \<and>
    statuses_ok (tasks example_replaced)) \<and>
   (set_tasks example_manager (JArr [JObj example_dict]) (Some ''new'') = Inr example_replaced \<and>
    list_all entry_ok [JObj example_dict]) \<and>
   (statuses_ok (tasks example_manager) \<and> valid_status (JStr ''failed'') \<and>
    statuses_ok (tasks (update_task_status ''2024-06-01T00:00:00'' example_manager (JStr ''1'') ''failed''))) \<and>
   (valid_status (status (example_child_task ''1-1'')) \<and>
    statuses_ok (tasks (add_task ''2024-06-01T00:00:00'' example_manager (example_child_task ''1-1'')))) \<and>
   (list_all entry_ok [JObj (model_dump False example_task)] \<and>
    py_iter (fst (refine example_refine_oracle JNull [JObj (model_dump False example_task)] [] [] [] 0 JNull))
      = Inr [JObj (model_dump False example_task)])"
proof -
  let ?p = "example_task\<lparr>status := JStr ''pending''\<rparr>"
  have l1: "load_tasks example_replaced = Inr example_replaced"
    unfolding example_replaced_def by (rule load_tasks_save_tasks)
  have l2: "tasks_file example_replaced = Some example_document"
    by (simp add: example_replaced_def example_document_def save_tasks_document)
  have l3: "py_iter (case example_document of
               JObj d \<Rightarrow> (case fmlookup d ''tasks'' of None \<Rightarrow> JArr [] | Some v \<Rightarrow> v)
             | v \<Rightarrow> v) = Inr [JObj (model_dump False ?p)]"
    by (simp add: example_document_def)
  have l4: "list_all entry_ok [JObj (model_dump False ?p)]"
    by (simp add: entry_ok_def model_dump_lookups valid_status_def example_task_def)
  have s2: "py_iter (JArr [JObj example_dict]) = Inr [JObj example_dict]" by simp
  have s3: "list_all entry_ok [JObj example_dict]"
    by (simp add: entry_ok_def example_dict_def valid_status_def)
  have u1: "statuses_ok (tasks example_manager)"
    by (simp add: statuses_ok_def example_manager_def example_task_def valid_status_def)
  have u2: "valid_status (JStr ''failed'')" by (simp add: valid_status_def)
  have a1: "valid_status (status (example_child_task ''1-1''))"
    by (simp add: valid_status_def example_child_task_def)
  have r1: "list_all entry_ok [JObj (model_dump False example_task)]"
    by (simp add: entry_ok_def model_dump_lookups valid_status_def example_task_def)
  have r2: "\<forall>response v xs.
      example_refine_oracle (JNull, [JObj (model_dump False example_task)], [], [], [], 0, JNull)
        = Inr (JObj response) \<and>
      fmlookup response ''tasks'' = Some v \<and> py_iter v = Inr xs \<longrightarrow> list_all entry_ok xs"
    using s3 by (auto simp: example_refine_oracle_def)
  have r3: "py_iter (fst (refine example_refine_oracle JNull [JObj (model_dump False example_task)]
               [] [] [] 0 JNull)) = Inr [JObj (model_dump False example_task)]"
    by code_simp
  note inst = operations_preserve_valid_statuses
    [where tm = example_manager and tm' = example_replaced and data = example_document
       and ds = "[JObj (model_dump False ?p)]" and new_list = "JArr [JObj example_dict]"
       and req = "Some ''new''" and tmb = example_replaced and dsb = "[JObj example_dict]"
       and st = "''failed''" and now = "''2024-06-01T00:00:00''" and tid = "JStr ''1''"
       and t = "example_child_task ''1-1''" and old = "[JObj (model_dump False example_task)]"
       and q = example_refine_oracle and rq = JNull and cr = "[]" and rc = "[]" and fc = "[]"
       and ec = 0 and lid = JNull and dsc = "[JObj (model_dump False example_task)]"]
  note inst_load = operations_preserve_valid_statuses
    [where tm = example_replaced and tm' = example_replaced and data = example_document
       and ds = "[JObj (model_dump False ?p)]"]
  have c1: "statuses_ok (tasks example_replaced)"
    using inst_load l1 l2 l3 l4 by blast
  have c3: "statuses_ok (tasks (update_task_status ''2024-06-01T00:00:00'' example_manager (JStr ''1'') ''failed''))"
    using inst u1 u2 by blast
  have c4: "statuses_ok (tasks (add_task ''2024-06-01T00:00:00'' example_manager (example_child_task ''1-1'')))"
    using inst u1 a1 by blast
  show ?thesis
    using l1 l2 l4 c1 set_tasks_example s3 u1 u2 c3 a1 c4 r1 r3 by blast
qed

section \<open>Properties of the control loop\<close>

lemma do_add_task_simps:
  "tasks (task_manager (do_add_task en t w)) =
     tasks (task_manager w) @
       [if \<not> truthy (updated_time t) then t\<lparr>updated_time := JStr (utcnow en (clock w))\<rparr> else t]"
  "trace (do_add_task en t w) = trace w @ [TaskAdded t]"
  "clock (do_add_task en t w) = Suc (clock w)"
  "task_count (do_add_task en t w) = task_count w"
  "requirement (task_manager (do_add_task en t w)) = requirement (task_manager w)"
  by (simp_all add: do_add_task_def emit_def add_task_def save_tasks_document)

lemma do_update_task_status_simps:
  "tasks (task_manager (do_update_task_status en tid st w)) =
     update_loop (utcnow en (clock w)) tid st (tasks (task_manager w))"
  "trace (do_update_task_status en tid st w) = trace w @ [StatusUpdated tid st]"
  "clock (do_update_task_status en tid st w) = Suc (clock w)"
  "task_count (do_update_task_status en tid st w) = task_count w"
  "requirement (task_manager (do_update_task_status en tid st w)) = requirement (task_manager w)"
  by (simp_all add: do_update_task_status_def emit_def update_task_status_def save_tasks_document)

lemma emit_simps:
  "task_manager (emit ev w) = task_manager w"
  "trace (emit ev w) = trace w @ [ev]"
  "clock (emit ev w) = clock w"
  "task_count (emit ev w) = task_count w"
  by (simp_all add: emit_def)

lemma add_children_tasks:
  "tasks (task_manager (add_children en xs w)) =
     tasks (task_manager w) @ stamp_from en (clock w) (accepted_children xs)"
  by (induction xs arbitrary: w)
     (auto simp: do_add_task_simps split: json.splits sum.splits)



lemma handle_timeout_children:
  "handle_timeout en task w =
     (add_children en (returned_children en)
        (emit (QueriedJson (Some 120))
           (do_update_task_status en (task_id task) ''failed'' w)))
     \<lparr>task_count :=
        task_count (add_children en (returned_children en)
          (emit (QueriedJson (Some 120))
             (do_update_task_status en (task_id task) ''failed'' w))) + 1\<rparr>"
proof (cases "query_breakdown en")
  case (Inl e)
  then show ?thesis by (simp add: handle_timeout_def returned_children_def Let_def)
next
  case (Inr v)
  show ?thesis
  proof (cases v)
    case (JObj r)
    show ?thesis
    proof (cases "fmlookup r ''tasks''")
      case None
      with Inr JObj show ?thesis by (simp add: handle_timeout_def returned_children_def Let_def)
    next
      case (Some new_tasks)
      with Inr JObj show ?thesis
        by (cases "py_iter new_tasks") (simp_all add: handle_timeout_def returned_children_def Let_def)
    qed
  qed (use Inr in \<open>simp_all add: handle_timeout_def returned_children_def Let_def\<close>)
qed

lemma handle_timeout_tasks:
  "tasks (task_manager (handle_timeout en task w)) =
     update_loop (utcnow en (clock w)) (task_id task) ''failed'' (tasks (task_manager w)) @
       stamp_from en (Suc (clock w)) (accepted_children (returned_children en))"
  by (simp add: handle_timeout_children add_children_tasks emit_simps
        do_update_task_status_simps)



lemma run_iteration_timeout:
  assumes "get_next_task (task_manager w) = Some task" and "query_coder en = Inl TimeoutError"
  shows "run_iteration en project_dir timeout w =
           (handle_timeout en task
              (emit (Queried timeout) (do_update_task_status en (task_id task) ''in_progress'' w)),
            NextIteration)"
  using assms by (simp add: run_iteration_def try_block_def Let_def)

lemma find_update_loop:
  "find (\<lambda>t. task_id t = tid) (update_loop now tid st ts) =
     map_option (\<lambda>t. t\<lparr>status := JStr st, updated_time := JStr now\<rparr>)
       (find (\<lambda>t. task_id t = tid) ts)"
  by (induction ts) simp_all




lemma accepted_children_take:
  "list_all2 (\<lambda>x c. \<exists>d. x = JObj d \<and> SubTask_init d = Inr c)
     (take (length (accepted_children xs)) xs) (accepted_children xs)"
  by (induction xs) (auto split: json.splits sum.splits)

lemma accepted_children_take_accepted:
  "list_all accepted_entry (take (length (accepted_children xs)) xs)"
proof -
  have "list_all accepted_entry ys"
    if "list_all2 (\<lambda>x c. \<exists>d. x = JObj d \<and> SubTask_init d = Inr c) ys cs" for ys cs
    using that by (induction rule: list_all2_induct) (auto simp: accepted_entry_def)
  then show ?thesis
    using accepted_children_take by blast
qed

lemma accepted_children_stops:
  "length (accepted_children xs) < length xs \<Longrightarrow>
     \<not> accepted_entry (xs ! length (accepted_children xs))"
  by (induction xs) (auto simp: accepted_entry_def split: json.splits sum.splits)

lemma accepted_children_every:
  "list_all accepted_entry xs \<Longrightarrow> length (accepted_children xs) = length xs"
  by (induction xs) (auto simp: accepted_entry_def split: json.splits sum.splits)

lemma accepted_children_ids:
  "map task_id (accepted_children xs) = map entry_id (take (length (accepted_children xs)) xs)"
  by (induction xs)
     (auto simp: entry_id_def dest!: SubTask_init_fields split: json.splits sum.splits)

lemma map_task_id_update_loop:
  "map task_id (update_loop now tid st ts) = map task_id ts"
  by (induction ts) simp_all

lemma map_task_id_stamp_from:
  "map task_id (stamp_from en k ts) = map task_id ts"
  by (induction ts arbitrary: k) simp_all

lemma length_update_loop: "length (update_loop now tid st ts) = length ts"
  by (induction ts) simp_all

lemma record_verdict_tasks:
  "tasks (task_manager (fst (record_verdict en task exit_code output w))) =
     update_loop (utcnow en (clock w)) (task_id task)
       (if exit_code = 0 \<and> \<not> has_error output then ''completed'' else ''failed'')
       (tasks (task_manager w))"
  by (simp add: record_verdict_def Let_def do_update_task_status_simps emit_simps
           split: sum.splits option.splits)

lemma has_error_iff:
  "has_error output \<longleftrightarrow>
     sublist ''error'' output \<or> sublist ''Error'' output \<or> sublist ''ERROR'' output \<or>
     sublist ''failed'' output \<or> sublist ''Failed'' output \<or> sublist ''FAILED'' output \<or>
     sublist ''exception'' output \<or> sublist ''Exception'' output \<or>
     sublist ''EXCEPTION'' output"
  by (simp add: has_error_def error_patterns_def)

lemma nothing_to_commit_has_error:
  assumes "sublist ''Error: nothing to commit'' output"
  shows "has_error output"
proof -
  have "prefix ''Error'' ''Error: nothing to commit''" by simp
  then have "sublist ''Error'' ''Error: nothing to commit''" by (rule prefix_imp_sublist)
  from this assms have "sublist ''Error'' output" by (rule sublist_order.order.trans)
  then show ?thesis by (simp add: has_error_iff)
qed

lemma stored_status_record_verdict:
  assumes "find (\<lambda>t. task_id t = task_id task) (tasks (task_manager w)) = Some t0"
  shows "stored_status (task_id task) (fst (record_verdict en task exit_code output w)) =
           Some (JStr (if exit_code = 0 \<and> \<not> has_error output then ''completed'' else ''failed''))"
  using assms by (simp add: stored_status_def record_verdict_tasks find_update_loop)

text \<open>
  C3. The verdict on a test run. After \<^verbatim>\<open>run_command\<close> has returned the exit code and the
  output, the status stored for the task is \<^verbatim>\<open>completed\<close> exactly when the exit code is zero
  and none of the nine markers occurs in the output, and \<^verbatim>\<open>failed\<close> otherwise. So an exit
  code of zero with \<^verbatim>\<open>Error: nothing to commit\<close> in the output is a failure, and so is every
  exit code other than zero. (The task is looked up by its id, as \<^verbatim>\<open>update_task_status\<close> does.)
\<close>

theorem verdict_completed_iff_exit_zero_and_no_marker:
  assumes "find (\<lambda>t. task_id t = task_id task) (tasks (task_manager w)) = Some t0"
  shows "let S = stored_status (task_id task) (fst (record_verdict en task exit_code output w))
         in (S = Some (JStr ''completed'') \<longleftrightarrow>
               exit_code = 0 \<and>
               \<not> sublist ''error'' output \<and> \<not> sublist ''Error'' output \<and>
               \<not> sublist ''ERROR'' output \<and> \<not> sublist ''failed'' output \<and>
               \<not> sublist ''Failed'' output \<and> \<not> sublist ''FAILED'' output \<and>
               \<not> sublist ''exception'' output \<and> \<not> sublist ''Exception'' output \<and>
               \<not> sublist ''EXCEPTION'' output) \<and>
            (S \<noteq> Some (JStr ''completed'') \<longrightarrow> S = Some (JStr ''failed'')) \<and>
            (exit_code = 0 \<and> sublist ''Error: nothing to commit'' output
               \<longrightarrow> S = Some (JStr ''failed'')) \<and>
            (exit_code \<noteq> 0 \<longrightarrow> S = Some (JStr ''failed''))"
proof -
  note S = stored_status_record_verdict [OF assms, of en exit_code "output"]
  have a: "exit_code = 0 \<and> sublist ''Error: nothing to commit'' output \<longrightarrow> has_error output"
    using nothing_to_commit_has_error by blast
  show ?thesis
    unfolding Let_def S using a by (auto simp: has_error_iff)
qed



lemma example_next_task:
  "get_next_task (task_manager example_world) = Some example_pending_task"
  by (simp add: get_next_task_def example_world_def example_pending_def example_pending_task_def
        example_task_def)

lemma example_times_out: "query_coder example_env = Inl TimeoutError"
  by (simp add: example_env_def)



theorem verdict_completed_iff_exit_zero_and_no_marker_witness:
  "find (\<lambda>t. task_id t = task_id example_pending_task) (tasks (task_manager example_world))
     = Some example_pending_task \<and>
   sublist ''Error: nothing to commit'' ''Error: nothing to commit'' \<and>
   stored_status (task_id example_pending_task)
     (fst (record_verdict example_env example_pending_task 0 ''Error: nothing to commit''
        example_world)) = Some (JStr ''failed'')"
proof -
  have f: "find (\<lambda>t. task_id t = task_id example_pending_task)
             (tasks (task_manager example_world)) = Some example_pending_task"
    by (simp add: example_world_def example_pending_def example_pending_task_def)
  have s: "sublist ''Error: nothing to commit'' ''Error: nothing to commit''"
    by (rule sublist_order.order.refl)
  from verdict_completed_iff_exit_zero_and_no_marker
         [OF f, of example_env 0 "''Error: nothing to commit''"] s
  show ?thesis using f unfolding Let_def by blast
qed

text \<open>
  C5, as the claim states it, fails: the ids of the children are those the oracle answers
  and nothing checks them. Task \<^verbatim>\<open>1\<close> times out and the oracle answers a child with id
  \<^verbatim>\<open>1\<close>: it is appended, its id neither starts with \<^verbatim>\<open>1-\<close> nor differs from the id in the
  list, and the ids of the list are no longer unique.
\<close>

theorem decomposition_ids_unchecked_counterexample:
  "get_next_task (task_manager example_world) = Some example_pending_task \<and>
   task_id example_pending_task = JStr ''1'' \<and>
   query_coder example_env_dup = Inl TimeoutError \<and>
   map task_id (tasks (task_manager
      (fst (run_iteration example_env_dup (Path ''/root/proj'') (Some 5) example_world))))
     = [JStr ''1'', JStr ''1'']"
proof -
  have q: "query_coder example_env_dup = Inl TimeoutError"
    by (simp add: example_env_dup_def example_env_def)
  have c: "accepted_children (returned_children example_env_dup) =
             [(example_child_task ''1'')\<lparr>updated_time := JNull\<rparr>]"
    by (simp add: returned_children_def example_env_dup_def example_child_def
          example_child_task_def SubTask_init_def SubTask_params_def)
  have "map task_id (tasks (task_manager
          (fst (run_iteration example_env_dup (Path ''/root/proj'') (Some 5) example_world))))
        = [JStr ''1'', JStr ''1'']"
    by (simp add: run_iteration_timeout [OF example_next_task q] handle_timeout_tasks
          emit_simps do_update_task_status_simps map_task_id_update_loop
          map_task_id_stamp_from c example_child_task_def)
       (simp add: example_world_def example_pending_def example_task_def)
  with example_next_task q show ?thesis
    by (simp add: example_pending_task_def example_task_def)
qed

text \<open>
  C5, amended. Nothing checks an id. The appended tasks carry the ids of the entries the
  oracle returned, in order, up to the first entry \<^verbatim>\<open>SubTask\<close> rejects: the ids of all
  returned entries when every entry is accepted. So when every returned id is \<open>p\<close> followed
  by \<^verbatim>\<open>-\<close> and a suffix, so is the id of each appended task; and when the returned ids are
  pairwise distinct, none of them is in the list, and the ids of the list are unique, the
  ids are unique after the decomposition.
\<close>

theorem decomposition_ids_are_the_oracles:
  assumes "get_next_task (task_manager w) = Some task" and "query_coder en = Inl TimeoutError"
  shows "let w' = fst (run_iteration en project_dir timeout w);
             appended = drop (length (tasks (task_manager w))) (tasks (task_manager w'));
             returned = returned_children en
         in map task_id appended = map entry_id (take (length appended) returned) \<and>
            list_all accepted_entry (take (length appended) returned) \<and>
            (length appended < length returned \<longrightarrow>
               \<not> accepted_entry (returned ! length appended)) \<and>
            (list_all accepted_entry returned \<longrightarrow>
               map task_id appended = map entry_id returned) \<and>
            (\<forall>p. (\<forall>x \<in> set returned. \<exists>s. entry_id x = JStr (p @ ''-'' @ s))
                 \<longrightarrow> (\<forall>t \<in> set appended. \<exists>s. task_id t = JStr (p @ ''-'' @ s))) \<and>
            (distinct (map task_id (tasks (task_manager w))) \<and>
             distinct (map entry_id returned) \<and>
             set (map entry_id returned) \<inter> set (map task_id (tasks (task_manager w))) = {}
               \<longrightarrow> distinct (map task_id (tasks (task_manager w'))))"
proof -
  let ?r = "returned_children en"
  let ?cs = "accepted_children ?r"
  let ?w' = "fst (run_iteration en project_dir timeout w)"
  let ?U = "update_loop (utcnow en (Suc (clock w))) (task_id task) ''failed''
              (update_loop (utcnow en (clock w)) (task_id task) ''in_progress''
                 (tasks (task_manager w)))"
  let ?S = "stamp_from en (Suc (Suc (clock w))) ?cs"
  from run_iteration_timeout [OF assms, of project_dir timeout]
  have tasks': "tasks (task_manager ?w') = ?U @ ?S"
    by (simp add: handle_timeout_tasks emit_simps do_update_task_status_simps)
  have lenU: "length ?U = length (tasks (task_manager w))"
    by (simp add: length_update_loop)
  have idsU: "map task_id ?U = map task_id (tasks (task_manager w))"
    by (simp add: map_task_id_update_loop)
  have app: "drop (length (tasks (task_manager w))) (tasks (task_manager ?w')) = ?S"
    using tasks' lenU by simp
  have lenS: "length ?S = length ?cs"
    using map_task_id_stamp_from [of en "Suc (Suc (clock w))" ?cs]
    by (metis length_map)
  have idsS: "map task_id ?S = map entry_id (take (length ?S) ?r)"
    unfolding lenS by (simp add: map_task_id_stamp_from accepted_children_ids [symmetric])
  have every: "map task_id ?S = map entry_id ?r" if "list_all accepted_entry ?r"
    using idsS accepted_children_every [OF that] lenS by simp
  have sub: "set (map task_id ?S) \<subseteq> set (map entry_id ?r)"
    unfolding idsS by (auto dest: in_set_takeD)
  have pre: "\<forall>t \<in> set ?S. \<exists>s. task_id t = JStr (p @ ''-'' @ s)"
    if h: "\<forall>x \<in> set ?r. \<exists>s. entry_id x = JStr (p @ ''-'' @ s)" for p
  proof
    fix t assume "t \<in> set ?S"
    then have "task_id t \<in> set (map task_id ?S)" by simp
    with sub have "task_id t \<in> set (map entry_id ?r)" by blast
    with h show "\<exists>s. task_id t = JStr (p @ ''-'' @ s)" by auto
  qed
  have d: "distinct (map task_id (tasks (task_manager ?w')))"
    if d1: "distinct (map task_id (tasks (task_manager w)))"
      and d2: "distinct (map entry_id ?r)"
      and d3: "set (map entry_id ?r) \<inter> set (map task_id (tasks (task_manager w))) = {}"
  proof -
    have "distinct (take (length ?S) (map entry_id ?r))"
      using d2 by (rule distinct_take)
    then have "distinct (map task_id ?S)"
      by (simp add: idsS take_map)
    moreover have "set (map task_id (tasks (task_manager w))) \<inter> set (map task_id ?S) = {}"
      using sub d3 by blast
    ultimately show ?thesis
      using d1 unfolding tasks' by (simp only: map_append distinct_append idsU)
  qed
  have acc: "list_all accepted_entry (take (length ?S) ?r)"
    unfolding lenS by (rule accepted_children_take_accepted)
  have stop: "length ?S < length ?r \<longrightarrow> \<not> accepted_entry (?r ! length ?S)"
    unfolding lenS using accepted_children_stops [of ?r] by blast
  show ?thesis
    unfolding Let_def app using idsS acc stop every pre d by blast
qed

theorem decomposition_ids_are_the_oracles_witness:
  "get_next_task (task_manager example_world) = Some example_pending_task \<and>
   query_coder example_env = Inl TimeoutError \<and>
   list_all accepted_entry (returned_children example_env) \<and>
   map entry_id (returned_children example_env) = [JStr ''1-1'', JStr ''1-2''] \<and>
   map task_id (tasks (task_manager example_world)) = [JStr ''1''] \<and>
   map task_id (drop (length (tasks (task_manager example_world)))
     (tasks (task_manager
        (fst (run_iteration example_env (Path ''/root/proj'') (Some 5) example_world)))))
     = [JStr ''1-1'', JStr ''1-2''] \<and>
   distinct (map task_id (tasks (task_manager
     (fst (run_iteration example_env (Path ''/root/proj'') (Some 5) example_world)))))"
proof -
  have acc: "list_all accepted_entry (returned_children example_env)"
    by (simp add: returned_children_def example_env_def example_child_def accepted_entry_def
          SubTask_init_def SubTask_params_def)
  have c: "map entry_id (returned_children example_env) = [JStr ''1-1'', JStr ''1-2'']"
    by (simp add: returned_children_def example_env_def example_child_def entry_id_def
          dict_get_def)
  have t: "map task_id (tasks (task_manager example_world)) = [JStr ''1'']"
    by (simp add: example_world_def example_pending_def example_task_def)
  have d1: "distinct (map task_id (tasks (task_manager example_world)))"
    by (simp add: t)
  have d2: "distinct (map entry_id (returned_children example_env))"
    by (simp add: c)
  have d3: "set (map entry_id (returned_children example_env)) \<inter>
              set (map task_id (tasks (task_manager example_world))) = {}"
    by (simp add: c t)
  note th = decomposition_ids_are_the_oracles
         [OF example_next_task example_times_out, of "Path ''/root/proj''" "Some 5"]
  from th acc have
    "map task_id (drop (length (tasks (task_manager example_world)))
       (tasks (task_manager
          (fst (run_iteration example_env (Path ''/root/proj'') (Some 5) example_world)))))
     = map entry_id (returned_children example_env)"
    unfolding Let_def by blast
  moreover from th d1 d2 d3 have
    "distinct (map task_id (tasks (task_manager
       (fst (run_iteration example_env (Path ''/root/proj'') (Some 5) example_world)))))"
    unfolding Let_def by blast
  ultimately show ?thesis
    using example_next_task example_times_out acc c t by simp
qed

section \<open>Properties of the file blocks\<close>

lemma map_of_store_file:
  "map_of (store_file pd [path, content] files) =
     (map_of files)(normalize_path pd path \<mapsto> content)"
  by (simp add: store_file_def update_conv')

lemma store_file_other:
  assumes "\<forall>p c. b = [p, c] \<longrightarrow> normalize_path pd p \<noteq> k"
  shows "map_of (store_file pd b files) k = map_of files k"
proof (cases "\<exists>p c. b = [p, c]")
  case True
  then obtain p c where b: "b = [p, c]" by blast
  with assms have "normalize_path pd p \<noteq> k" by blast
  with b show ?thesis by (simp add: map_of_store_file)
next
  case False
  then have "store_file pd b files = files"
    by (auto simp: store_file_def split: list.splits)
  then show ?thesis by simp
qed

lemma fold_store_file_other:
  "(\<forall>b \<in> set bs. \<forall>p c. b = [p, c] \<longrightarrow> normalize_path pd p \<noteq> k) \<Longrightarrow>
     map_of (fold (store_file pd) bs files) k = map_of files k"
  by (induction bs arbitrary: files) (simp_all add: store_file_other)

lemma store_file_distinct:
  "distinct (map fst files) \<Longrightarrow> distinct (map fst (store_file pd b files))"
  by (auto simp: store_file_def distinct_update split: list.splits)

lemma fold_store_file_distinct:
  "distinct (map fst files) \<Longrightarrow> distinct (map fst (fold (store_file pd) bs files))"
  by (induction bs arbitrary: files) (simp_all add: store_file_distinct)

lemma fold_store_file_last:
  assumes "i < length bs" and "bs ! i = [path, content]"
    and "\<forall>j p c. i < j \<and> j < length bs \<and> bs ! j = [p, c]
           \<longrightarrow> normalize_path pd p \<noteq> normalize_path pd path"
  shows "map_of (fold (store_file pd) bs files) (normalize_path pd path) = Some content"
proof -
  let ?k = "normalize_path pd path"
  have bs: "bs = take i bs @ bs ! i # drop (Suc i) bs"
    using assms(1) by (simp add: id_take_nth_drop)
  have later: "\<forall>b \<in> set (drop (Suc i) bs). \<forall>p c. b = [p, c] \<longrightarrow> normalize_path pd p \<noteq> ?k"
  proof (intro ballI allI impI)
    fix b p c assume "b \<in> set (drop (Suc i) bs)" and b: "b = [p, c]"
    then obtain n where n: "n < length (drop (Suc i) bs)" "drop (Suc i) bs ! n = b"
      by (auto simp: in_set_conv_nth)
    then have "Suc i + n < length bs" "bs ! (Suc i + n) = [p, c]"
      using b by auto
    with assms(3) show "normalize_path pd p \<noteq> ?k"
      by (metis less_add_Suc1 add_Suc)
  qed
  have "fold (store_file pd) bs files =
          fold (store_file pd) (drop (Suc i) bs)
            (store_file pd (bs ! i) (fold (store_file pd) (take i bs) files))"
    by (subst bs) simp
  then show ?thesis
    using assms(2) by (simp add: fold_store_file_other [OF later] map_of_store_file)
qed

text \<open>
  C10. Where several file blocks of an answer name the same path, after normalization, the
  dictionary binds that path to the content of the last of them: for a block that no later
  block with the same normalized path follows, the dictionary holds its content under its
  normalized path. And every path is bound once: the blocks are neither rejected nor merged.
\<close>

theorem last_file_block_wins:
  "(let blocks = findall file_pattern response
    in i < length blocks \<and> blocks ! i = [path, content] \<and>
       (\<forall>j p c. i < j \<and> j < length blocks \<and> blocks ! j = [p, c]
           \<longrightarrow> normalize_path project_dir p \<noteq> normalize_path project_dir path)
       \<longrightarrow> map_of (parse_files_from_response project_dir response)
             (normalize_path project_dir path) = Some content) \<and>
   distinct (map fst (parse_files_from_response project_dir response))"
proof -
  have "map_of (fold (store_file project_dir) blocks []) (normalize_path project_dir path)
          = Some content"
    if "i < length blocks" "blocks ! i = [path, content]"
       "\<forall>j p c. i < j \<and> j < length blocks \<and> blocks ! j = [p, c]
           \<longrightarrow> normalize_path project_dir p \<noteq> normalize_path project_dir path"
    for blocks
    using that by (rule fold_store_file_last)
  then show ?thesis
    unfolding Let_def parse_files_from_response_def
    by (simp add: fold_store_file_distinct)
qed

lemma example_twice_blocks:
  "findall file_pattern example_twice = [[''a'', ''x''], [''./a'', ''y'']]"
  by code_simp

theorem last_file_block_wins_witness:
  "findall file_pattern example_twice = [[''a'', ''x''], [''./a'', ''y'']] \<and>
   normalize_path (Path ''/root/proj'') ''a'' = ''a'' \<and>
   normalize_path (Path ''/root/proj'') ''./a'' = ''a'' \<and>
   map_of (parse_files_from_response (Path ''/root/proj'') example_twice) ''a'' = Some ''y''"
proof -
  have n1: "normalize_path (Path ''/root/proj'') ''a'' = ''a''" by code_simp
  have n2: "normalize_path (Path ''/root/proj'') ''./a'' = ''a''" by code_simp
  have last: "\<forall>j p c. (1::nat) < j \<and> j < length [[''a'', ''x''], [''./a'', ''y'']] \<and>
                [[''a'', ''x''], [''./a'', ''y'']] ! j = [p, c]
              \<longrightarrow> normalize_path (Path ''/root/proj'') p \<noteq> normalize_path (Path ''/root/proj'') ''./a''"
    by auto
  from last_file_block_wins [of example_twice 1 "''./a''" "''y''" "Path ''/root/proj''"]
  have "map_of (parse_files_from_response (Path ''/root/proj'') example_twice)
          (normalize_path (Path ''/root/proj'') ''./a'') = Some ''y''"
    unfolding Let_def example_twice_blocks using last by fastforce
  with example_twice_blocks n1 n2 show ?thesis by simp
qed

text \<open>
  C2. The code at the answer \<^verbatim>\<open>FILE: ../evil.txt\<close> with the root \<^verbatim>\<open>/root/proj\<close>: the path is
  relative, so it is kept as it is, and the iteration writes \<^verbatim>\<open>/root/proj/../evil.txt\<close>,
  which is not inside the root.
\<close>

theorem relative_dotdot_escapes_project_root:
  "parse_files_from_response (Path ''/root/proj'') example_escape = [(''../evil.txt'', ''x'')] \<and>
   FileWritten ''/root/proj/../evil.txt'' ''x'' \<in>
     set (trace (fst (run_iteration example_env_escape (Path ''/root/proj'') (Some 5) example_world))) \<and>
   \<not> inside_root (Path ''/root/proj'') (path_join (Path ''/root/proj'') ''../evil.txt'')"
  by code_simp

end
